theory Spec2Isabelle
  imports Complex_Main
begin

section \<open>The particle engine of PluribusParticlesCanvas.tsx\<close>

text \<open>
  A shallow embedding of the simulation code of \<^verbatim>\<open>src/PluribusParticlesCanvas.tsx\<close>:
  the mask-driven spawner \<^verbatim>\<open>createMask\<close> and the per-frame function \<^verbatim>\<open>draw\<close>.

  Conventions of the embedding.
  \<^item> A JavaScript \<^verbatim>\<open>number\<close> is a \<^typ>\<open>real\<close>: rounding, NaN and the infinities of
    IEEE doubles are outside the model. A division by zero is HOL's (\<open>a / 0 = 0\<close>); the
    engine's contract is \<open>mass > 0\<close>.
  \<^item> \<^verbatim>\<open>Math.random()\<close> is a stream \<open>rnd :: nat \<Rightarrow> real\<close>; the state counts the draws made
    so far, and the \<open>k\<close>-th call returns \<open>rnd k\<close>.
  \<^item> The objects of the arrays \<^verbatim>\<open>particles\<close> and \<^verbatim>\<open>ambientParticles\<close> are mutated in place
    through the combined array \<^verbatim>\<open>allParticles\<close>; the model addresses them by their index in
    that array.
  \<^item> The calls on the 2-D drawing context only paint; they are not part of the state.
\<close>

subsection \<open>Data model\<close>

record Config =
  waveSpeed :: real
  waveInterval :: real
  waveThickness :: real
  radialKick :: real
  noiseKick :: real
  returnStrength :: real
  bounceProb :: real
  ambientCount :: real
  repulsionStrength :: real
  repulsionRadius :: real
  paused :: bool
  skipIntro :: bool

text \<open>\<^verbatim>\<open>mouseRef.current\<close>, the pointer sample \<^verbatim>\<open>{x, y, active}\<close>.\<close>

record Mouse =
  mouseX :: real
  mouseY :: real
  active :: bool

text \<open>
  The type \<^verbatim>\<open>AmbientParticle\<close>, and \<^verbatim>\<open>Particle\<close>, which has the same nine fields and seven
  more. The field \<^verbatim>\<open>dist\<close> is named \<open>dist_w\<close> here (the distance from the wave origin).
\<close>

record AmbientParticle =
  baseX :: real
  baseY :: real
  x :: real
  y :: real
  vx :: real
  vy :: real
  friction :: real
  mass :: real
  radius :: real

record Particle = AmbientParticle +
  dist_w :: real
  angle :: real
  isText :: bool
  activation :: real
  jitterX :: real
  jitterY :: real
  phase :: real

text \<open>The type \<^verbatim>\<open>Wave\<close>, whose only field is \<^verbatim>\<open>radius\<close>.\<close>

record Wave =
  wave_radius :: real

text \<open>
  The mutable variables of the effect: the three arrays, the three clocks of \<^verbatim>\<open>draw\<close>,
  and the number of \<^verbatim>\<open>Math.random()\<close> calls made so far.
\<close>

record State =
  particles :: "Particle list"
  ambientParticles :: "AmbientParticle list"
  waves :: "Wave list"
  lastRafTime :: real
  accumulatedTime :: real
  timeSinceLastWave :: real
  draws :: nat

subsection \<open>Constants and small helpers\<close>

definition GRID_SPACING :: nat where "GRID_SPACING = 3"
definition TEXT_RADIUS :: real where "TEXT_RADIUS = 11 / 10"
definition BG_RADIUS :: real where "BG_RADIUS = 1"
definition TEXT_KEEP_PROB :: real where "TEXT_KEEP_PROB = 85 / 100"
definition BACKGROUND_KEEP_PROB :: real where "BACKGROUND_KEEP_PROB = 22 / 100"
definition JITTER_AMOUNT :: real where "JITTER_AMOUNT = 1 / 2"
definition ZOOM_START :: real where "ZOOM_START = 3"
definition ZOOM_END :: real where "ZOOM_END = 1"
definition ANIMATION_DURATION :: real where "ANIMATION_DURATION = 4800"
definition MAIN_WAVE_MIN_RADIUS :: real where "MAIN_WAVE_MIN_RADIUS = 10"
definition MAIN_WAVE_FADE_RADIUS :: real where "MAIN_WAVE_FADE_RADIUS = 140"
definition CELL_SIZE :: real where "CELL_SIZE = 6"
definition COLLISION_DAMPING :: real where "COLLISION_DAMPING = 85 / 100"

definition easeOutCubic :: "real \<Rightarrow> real" where
  "easeOutCubic t = 1 - (1 - t) ^ 3"

definition clamp :: "real \<Rightarrow> real \<Rightarrow> real \<Rightarrow> real" where
  "clamp v a b = max a (min b v)"

text \<open>\<^verbatim>\<open>randRange(min, max)\<close>, given the value \<open>r\<close> that \<^verbatim>\<open>Math.random()\<close> returns.\<close>

definition randRange :: "real \<Rightarrow> real \<Rightarrow> real \<Rightarrow> real" where
  "randRange lo hi r = lo + r * (hi - lo)"

definition hypot :: "real \<Rightarrow> real \<Rightarrow> real" where
  "hypot a b = sqrt (a * a + b * b)"

text \<open>\<^verbatim>\<open>Math.atan2(dy, dx)\<close> on the reals (no signed zeros).\<close>

definition atan2 :: "real \<Rightarrow> real \<Rightarrow> real" where
  "atan2 dy dx =
     (if 0 < dx then arctan (dy / dx)
      else if dx < 0 then (if 0 \<le> dy then arctan (dy / dx) + pi else arctan (dy / dx) - pi)
      else if 0 < dy then pi / 2
      else if dy < 0 then - (pi / 2)
      else 0)"

subsection \<open>Collision resolution over the combined array\<close>

text \<open>
  \<^verbatim>\<open>allParticles = [...particles, ...ambientParticles]\<close> holds objects of both types; the
  resolver reads and writes only the fields the two types share.
\<close>

type_synonym AnyParticle = "Particle + AmbientParticle"

definition getX :: "AnyParticle \<Rightarrow> real" where
  "getX q = (case q of Inl p \<Rightarrow> x p | Inr a \<Rightarrow> x a)"

definition getY :: "AnyParticle \<Rightarrow> real" where
  "getY q = (case q of Inl p \<Rightarrow> y p | Inr a \<Rightarrow> y a)"

definition getVx :: "AnyParticle \<Rightarrow> real" where
  "getVx q = (case q of Inl p \<Rightarrow> vx p | Inr a \<Rightarrow> vx a)"

definition getVy :: "AnyParticle \<Rightarrow> real" where
  "getVy q = (case q of Inl p \<Rightarrow> vy p | Inr a \<Rightarrow> vy a)"

definition getMass :: "AnyParticle \<Rightarrow> real" where
  "getMass q = (case q of Inl p \<Rightarrow> mass p | Inr a \<Rightarrow> mass a)"

definition getRadius :: "AnyParticle \<Rightarrow> real" where
  "getRadius q = (case q of Inl p \<Rightarrow> radius p | Inr a \<Rightarrow> radius a)"

text \<open>\<^verbatim>\<open>p.x += ddx; p.y += ddy\<close> and \<^verbatim>\<open>p.vx += dvx; p.vy += dvy\<close>.\<close>

definition addPos :: "real \<Rightarrow> real \<Rightarrow> AnyParticle \<Rightarrow> AnyParticle" where
  "addPos ddx ddy q =
     (case q of
        Inl p \<Rightarrow> Inl (p\<lparr>x := x p + ddx, y := y p + ddy\<rparr>)
      | Inr a \<Rightarrow> Inr (a\<lparr>x := x a + ddx, y := y a + ddy\<rparr>))"

definition addVel :: "real \<Rightarrow> real \<Rightarrow> AnyParticle \<Rightarrow> AnyParticle" where
  "addVel dvx dvy q =
     (case q of
        Inl p \<Rightarrow> Inl (p\<lparr>vx := vx p + dvx, vy := vy p + dvy\<rparr>)
      | Inr a \<Rightarrow> Inr (a\<lparr>vx := vx a + dvx, vy := vy a + dvy\<rparr>))"

text \<open>The grid cell of a particle: \<^verbatim>\<open>Math.floor(p.x / CELL_SIZE)\<close>, and the same for \<^verbatim>\<open>y\<close>.\<close>

definition cell_of :: "AnyParticle \<Rightarrow> int \<times> int" where
  "cell_of q = (\<lfloor>getX q / CELL_SIZE\<rfloor>, \<lfloor>getY q / CELL_SIZE\<rfloor>)"

text \<open>
  The sparse grid: the key \<^verbatim>\<open>`${cellX},${cellY}`\<close> is the pair of cell coordinates, the
  value the particles of the cell (their indices in \<^verbatim>\<open>allParticles\<close>) in insertion order.
\<close>

type_synonym Grid = "int \<times> int \<Rightarrow> nat list option"

definition grid_add :: "AnyParticle list \<Rightarrow> nat \<Rightarrow> Grid \<Rightarrow> Grid" where
  "grid_add ps i g =
     (let key = cell_of (ps ! i)
      in g(key \<mapsto> (case g key of None \<Rightarrow> [] | Some js \<Rightarrow> js) @ [i]))"

definition build_grid :: "AnyParticle list \<Rightarrow> Grid" where
  "build_grid ps = fold (grid_add ps) [0..<length ps] Map.empty"

text \<open>
  The velocity exchange of one pair (step 2 of the loop body): \<open>nx, ny\<close> is the collision
  normal from \<open>p1\<close> to \<open>p2\<close>. The \<^verbatim>\<open>continue\<close> of the source leaves both velocities as they
  are when \<open>v1n < v2n\<close>.
\<close>

definition exchange_velocity ::
  "real \<Rightarrow> real \<Rightarrow> nat \<Rightarrow> nat \<Rightarrow> AnyParticle list \<Rightarrow> AnyParticle list" where
  "exchange_velocity nx ny i j ps =
     (let p1 = ps ! i; p2 = ps ! j;
          totalMass = getMass p1 + getMass p2;
          v1n = getVx p1 * nx + getVy p1 * ny;
          v2n = getVx p2 * nx + getVy p2 * ny
      in if v1n < v2n then ps
         else
           (let m1 = getMass p1; m2 = getMass p2;
                v1nFinal = (v1n * (m1 - m2) + 2 * m2 * v2n) / totalMass;
                v2nFinal = (v2n * (m2 - m1) + 2 * m1 * v1n) / totalMass;
                dv1n = v1nFinal - v1n;
                dv2n = v2nFinal - v2n
            in ps[i := addVel (dv1n * nx * COLLISION_DAMPING) (dv1n * ny * COLLISION_DAMPING) p1,
                  j := addVel (dv2n * nx * COLLISION_DAMPING) (dv2n * ny * COLLISION_DAMPING) p2]))"

text \<open>The body of the innermost loop for \<open>p1 = allParticles[i]\<close>, \<open>p2 = allParticles[j]\<close>, \<open>i \<noteq> j\<close>.\<close>

definition resolve_pair :: "nat \<Rightarrow> nat \<Rightarrow> AnyParticle list \<Rightarrow> AnyParticle list" where
  "resolve_pair i j ps =
     (let p1 = ps ! i; p2 = ps ! j;
          ddx = getX p2 - getX p1;
          ddy = getY p2 - getY p1;
          distSq = ddx * ddx + ddy * ddy;
          minDist = getRadius p1 + getRadius p2
      in if distSq < minDist * minDist \<and> distSq > 1 / 1000 then
           (let d = sqrt distSq;
                overlap = minDist - d;
                totalMass = getMass p1 + getMass p2;
                m1Ratio = getMass p2 / totalMass;
                m2Ratio = getMass p1 / totalMass;
                nx = ddx / d;
                ny = ddy / d;
                separationX = nx * overlap * (1 / 2);
                separationY = ny * overlap * (1 / 2);
                ps1 = ps[i := addPos (- (separationX * 2 * m1Ratio)) (- (separationY * 2 * m1Ratio)) p1,
                         j := addPos (separationX * 2 * m2Ratio) (separationY * 2 * m2Ratio) p2]
            in exchange_velocity nx ny i j ps1)
         else ps)"

text \<open>\<^verbatim>\<open>for (const p2 of cellParticles) { if (p1 === p2) continue; ... }\<close>\<close>

definition collide_cell :: "nat \<Rightarrow> nat list \<Rightarrow> AnyParticle list \<Rightarrow> AnyParticle list" where
  "collide_cell i js ps = fold (\<lambda>j qs. if i = j then qs else resolve_pair i j qs) js ps"

definition neighbour_offsets :: "(int \<times> int) list" where
  "neighbour_offsets =
     [(-1, -1), (-1, 0), (-1, 1), (0, -1), (0, 0), (0, 1), (1, -1), (1, 0), (1, 1)]"

text \<open>
  The body of \<^verbatim>\<open>for (const p1 of allParticles)\<close>: the cell of \<open>p1\<close> is computed once, from its
  position at that moment, and the 3x3 block of cells around it is scanned.
\<close>

definition collide_particle :: "Grid \<Rightarrow> nat \<Rightarrow> AnyParticle list \<Rightarrow> AnyParticle list" where
  "collide_particle g i ps =
     (let c = cell_of (ps ! i)
      in fold (\<lambda>off qs. case g (fst c + fst off, snd c + snd off) of
                           None \<Rightarrow> qs
                         | Some js \<Rightarrow> collide_cell i js qs)
           neighbour_offsets ps)"

definition resolve_collisions :: "AnyParticle list \<Rightarrow> AnyParticle list" where
  "resolve_collisions ps = fold (collide_particle (build_grid ps)) [0..<length ps] ps"

text \<open>
  After the pass the two arrays hold the same objects as before, in the same order: the
  first \<open>length particles\<close> entries of the combined array and the rest. The second
  equation of each projection is never used (\<open>resolve_collisions\<close> keeps every entry's type).
\<close>

fun the_particle :: "AnyParticle \<Rightarrow> Particle" where
  "the_particle (Inl p) = p"
| "the_particle (Inr a) =
     \<lparr>baseX = baseX a, baseY = baseY a, x = x a, y = y a, vx = vx a, vy = vy a,
      friction = friction a, mass = mass a, radius = radius a,
      dist_w = 0, angle = 0, isText = False, activation = 0, jitterX = 0, jitterY = 0, phase = 0\<rparr>"

fun the_ambient :: "AnyParticle \<Rightarrow> AmbientParticle" where
  "the_ambient (Inr a) = a"
| "the_ambient (Inl p) =
     \<lparr>baseX = baseX p, baseY = baseY p, x = x p, y = y p, vx = vx p, vy = vy p,
      friction = friction p, mass = mass p, radius = radius p\<rparr>"

subsection \<open>The wave scheduler\<close>

text \<open>
  The block \<^verbatim>\<open>if (!cfg.paused) { ... }\<close> of \<^verbatim>\<open>draw\<close>: integration of the radii, removal of
  dead waves from the front of the array (\<^verbatim>\<open>waves.shift()\<close>), and spawning.
\<close>

definition advance_waves :: "real \<Rightarrow> real \<Rightarrow> Wave list \<Rightarrow> Wave list" where
  "advance_waves delta speed ws = map (\<lambda>w. w\<lparr>wave_radius := wave_radius w + delta * speed\<rparr>) ws"

definition maxDist :: "real \<Rightarrow> real \<Rightarrow> real" where
  "maxDist width height = hypot width height + 200"

definition remove_dead_waves :: "real \<Rightarrow> real \<Rightarrow> Wave list \<Rightarrow> Wave list" where
  "remove_dead_waves width height ws = dropWhile (\<lambda>w. wave_radius w > maxDist width height) ws"

definition update_waves :: "real \<Rightarrow> real \<Rightarrow> Config \<Rightarrow> real \<Rightarrow> State \<Rightarrow> State" where
  "update_waves width height cfg delta st =
     (let ws = remove_dead_waves width height (advance_waves delta (waveSpeed cfg) (waves st));
          t = timeSinceLastWave st + delta
      in if ws = [] \<and> t \<ge> delta then
           st\<lparr>waves := ws @ [\<lparr>wave_radius = 0\<rparr>], timeSinceLastWave := 0\<rparr>
         else if t > waveInterval cfg then
           st\<lparr>waves := ws @ [\<lparr>wave_radius = 0\<rparr>], timeSinceLastWave := 0\<rparr>
         else st\<lparr>waves := ws, timeSinceLastWave := t\<rparr>)"

subsection \<open>Forces on a mask particle\<close>

text \<open>
  One iteration of \<^verbatim>\<open>for (const w of waves)\<close> for the particle \<open>p\<close>: the accumulator is
  \<open>(totalKickX, totalKickY, k)\<close>, with \<open>k\<close> the number of random draws made so far. The
  draw of the bounce test happens only for a text particle inside the band
  (\<^verbatim>\<open>p.isText && Math.random() < ...\<close>), and the draw of \<^verbatim>\<open>extra\<close> only when the test succeeds.
\<close>

definition wave_kick ::
  "(nat \<Rightarrow> real) \<Rightarrow> Config \<Rightarrow> real \<Rightarrow> Particle \<Rightarrow> Wave \<Rightarrow> real \<times> real \<times> nat \<Rightarrow> real \<times> real \<times> nat" where
  "wave_kick rnd cfg time p w acc =
     (case acc of (totalKickX, totalKickY, k) \<Rightarrow>
        (let wRadius = wave_radius w;
             fade = clamp ((wRadius - MAIN_WAVE_MIN_RADIUS) /
                             max 1 (MAIN_WAVE_FADE_RADIUS - MAIN_WAVE_MIN_RADIUS)) 0 1;
             bandWidthPx = waveThickness cfg;
             bandDist = \<bar>dist_w p - wRadius\<bar>
         in if bandDist \<ge> bandWidthPx then acc
            else
              (let tBand = 1 - bandDist / bandWidthPx;
                   tBandSmooth = tBand * tBand * (3 - 2 * tBand);
                   dirX = cos (angle p);
                   dirY = sin (angle p);
                   noiseAngle = phase p + time * (7 / 10000) + wRadius * (2 / 1000);
                   nx = cos noiseAngle;
                   ny = sin noiseAngle;
                   mix = clamp (noiseKick cfg) 0 1;
                   kickStrength = radialKick cfg * fade;
                   fx = (dirX * (1 - mix) + nx * mix) * kickStrength * tBandSmooth;
                   fy = (dirY * (1 - mix) + ny * mix) * kickStrength * tBandSmooth
               in if isText p then
                    (if rnd k < bounceProb cfg * tBand * (1 / 2) then
                       (let extra = randRange (4 / 10) 1 (rnd (k + 1))
                        in (totalKickX + fx + dirX * extra, totalKickY + fy + dirY * extra, k + 2))
                     else (totalKickX + fx, totalKickY + fy, k + 1))
                  else (totalKickX + fx, totalKickY + fy, k))))"

text \<open>
  The pointer of a frame, in local coordinates: \<^verbatim>\<open>isMouseActive\<close>, \<^verbatim>\<open>mouseLocalX\<close>,
  \<^verbatim>\<open>mouseLocalY\<close>.
\<close>

record Pointer =
  isMouseActive :: bool
  mouseLocalX :: real
  mouseLocalY :: real

text \<open>The block \<^verbatim>\<open>if (isMouseActive) { ... }\<close> of the mask-particle loop: the kick it adds.\<close>

definition mouse_kick :: "Config \<Rightarrow> Pointer \<Rightarrow> Particle \<Rightarrow> real \<times> real" where
  "mouse_kick cfg ptr p =
     (if isMouseActive ptr then
        (let ddx = x p - mouseLocalX ptr;
             ddy = y p - mouseLocalY ptr;
             d = hypot ddx ddy
         in if d < repulsionRadius cfg then
              (let t = 1 - d / repulsionRadius cfg;
                   force = t * t * t * repulsionStrength cfg;
                   ang = atan2 ddy ddx;
                   acc = force / mass p
               in (cos ang * acc, sin ang * acc))
            else (0, 0))
      else (0, 0))"

text \<open>Kick, spring, friction and position update of one mask particle (lines 494 to 508).\<close>

definition integrate :: "Config \<Rightarrow> real \<Rightarrow> real \<Rightarrow> Particle \<Rightarrow> Particle" where
  "integrate cfg totalKickX totalKickY p =
     (let vx1 = vx p + totalKickX;
          vy1 = vy p + totalKickY;
          targetX = baseX p + jitterX p;
          targetY = baseY p + jitterY p;
          springAccel = returnStrength cfg / mass p;
          vx2 = vx1 + (targetX - x p) * springAccel;
          vy2 = vy1 + (targetY - y p) * springAccel;
          vx3 = vx2 * friction p;
          vy3 = vy2 * friction p
      in p\<lparr>vx := vx3, vy := vy3, x := x p + vx3, y := y p + vy3\<rparr>)"

text \<open>
  The activation tracker (lines 510 to 523). \<open>firstWave\<close> is \<^verbatim>\<open>waves[0]\<close>, \<open>None\<close> when the
  array is empty (the argument \<open>fw\<close> of \<open>reveal\<close>); \<^verbatim>\<open>revealRadius\<close> is \<^verbatim>\<open>firstWave.radius - 40\<close>
  and \<^verbatim>\<open>revealWidth\<close> is 140.
\<close>

definition revealWidth :: real where "revealWidth = 140"

definition firstWave :: "Wave list \<Rightarrow> Wave option" where
  "firstWave ws = (case ws of [] \<Rightarrow> None | w # _ \<Rightarrow> Some w)"

definition reveal :: "Config \<Rightarrow> Wave option \<Rightarrow> Particle \<Rightarrow> Particle" where
  "reveal cfg fw p =
     (if isText p then
        (if skipIntro cfg then p\<lparr>activation := 1\<rparr>
         else
           (case fw of
              None \<Rightarrow> p
            | Some w \<Rightarrow>
                if activation p < 1 then
                  (let d = dist_w p;
                       bandIn = wave_radius w - 40;
                       bandOut = bandIn + revealWidth
                   in if d < bandIn then p\<lparr>activation := 1\<rparr>
                      else if d < bandOut then
                        (let tReveal = 1 - (d - bandIn) / revealWidth
                         in p\<lparr>activation := max (activation p) tReveal\<rparr>)
                      else p)
                else p))
      else p)"

text \<open>The body of \<^verbatim>\<open>for (const p of particles)\<close>, and the loop itself.\<close>

definition step_particle ::
  "(nat \<Rightarrow> real) \<Rightarrow> Config \<Rightarrow> real \<Rightarrow> Wave list \<Rightarrow> Pointer \<Rightarrow> nat \<Rightarrow> Particle \<Rightarrow> Particle \<times> nat" where
  "step_particle rnd cfg time ws ptr k p =
     (case fold (wave_kick rnd cfg time p) ws (0, 0, k) of
        (kickX, kickY, k') \<Rightarrow>
          (let m = mouse_kick cfg ptr p;
               p1 = integrate cfg (kickX + fst m) (kickY + snd m) p
           in (reveal cfg (firstWave ws) p1, k')))"

fun step_particles ::
  "(nat \<Rightarrow> real) \<Rightarrow> Config \<Rightarrow> real \<Rightarrow> Wave list \<Rightarrow> Pointer \<Rightarrow> nat \<Rightarrow> Particle list \<Rightarrow> Particle list \<times> nat" where
  "step_particles rnd cfg time ws ptr k [] = ([], k)"
| "step_particles rnd cfg time ws ptr k (p # ps) =
     (case step_particle rnd cfg time ws ptr k p of
        (p', k') \<Rightarrow>
          (case step_particles rnd cfg time ws ptr k' ps of
             (ps', k'') \<Rightarrow> (p' # ps', k'')))"

subsection \<open>Ambient dust\<close>

text \<open>The body of \<^verbatim>\<open>for (const p of ambientParticles)\<close> (two draws per particle), and the loop.\<close>

definition step_ambient ::
  "(nat \<Rightarrow> real) \<Rightarrow> Config \<Rightarrow> Pointer \<Rightarrow> nat \<Rightarrow> AmbientParticle \<Rightarrow> AmbientParticle \<times> nat" where
  "step_ambient rnd cfg ptr k a =
     (let x1 = x a + (rnd k - 1 / 2) * (1 / 10);
          y1 = y a + (rnd (k + 1) - 1 / 2) * (1 / 10);
          v = (if isMouseActive ptr then
                 (let ddx = x1 - mouseLocalX ptr;
                      ddy = y1 - mouseLocalY ptr;
                      d = hypot ddx ddy
                  in if d < repulsionRadius cfg then
                       (let t = 1 - d / repulsionRadius cfg;
                            force = t * t * t * repulsionStrength cfg * (1 / 2);
                            ang = atan2 ddy ddx
                        in (vx a + cos ang * force / mass a, vy a + sin ang * force / mass a))
                     else (vx a, vy a))
               else (vx a, vy a));
          vx2 = fst v * friction a;
          vy2 = snd v * friction a
      in (a\<lparr>x := x1 + vx2, y := y1 + vy2, vx := vx2, vy := vy2\<rparr>, k + 2))"

fun step_ambients ::
  "(nat \<Rightarrow> real) \<Rightarrow> Config \<Rightarrow> Pointer \<Rightarrow> nat \<Rightarrow> AmbientParticle list \<Rightarrow> AmbientParticle list \<times> nat" where
  "step_ambients rnd cfg ptr k [] = ([], k)"
| "step_ambients rnd cfg ptr k (a # as) =
     (case step_ambient rnd cfg ptr k a of
        (a', k') \<Rightarrow>
          (case step_ambients rnd cfg ptr k' as of
             (as', k'') \<Rightarrow> (a' # as', k'')))"

subsection \<open>One frame: \<^verbatim>\<open>draw\<close>\<close>

text \<open>\<^verbatim>\<open>delta\<close>: the first frame (\<^verbatim>\<open>lastRafTime === 0\<close>) has delta 0.\<close>

definition frame_delta :: "real \<Rightarrow> State \<Rightarrow> real" where
  "frame_delta rafTime st = rafTime - (if lastRafTime st = 0 then rafTime else lastRafTime st)"

definition zoom_of :: "Config \<Rightarrow> real \<Rightarrow> real" where
  "zoom_of cfg time =
     (if \<not> skipIntro cfg then
        ZOOM_START + (ZOOM_END - ZOOM_START) * easeOutCubic (clamp (time / ANIMATION_DURATION) 0 1)
      else 1)"

definition pointer_of :: "real \<Rightarrow> real \<Rightarrow> real \<Rightarrow> Mouse \<Rightarrow> Pointer" where
  "pointer_of width height zoom m =
     \<lparr>isMouseActive = active m,
      mouseLocalX = (mouseX m - width / 2) / zoom,
      mouseLocalY = (mouseY m - height / 2) / zoom\<rparr>"

text \<open>
  The clocks and the wave block: everything \<^verbatim>\<open>draw\<close> does before the collision pass.
\<close>

definition tick_clock :: "real \<Rightarrow> real \<Rightarrow> Config \<Rightarrow> real \<Rightarrow> State \<Rightarrow> State" where
  "tick_clock width height cfg rafTime st =
     (let delta = frame_delta rafTime st;
          st1 = st\<lparr>lastRafTime := rafTime\<rparr>
      in if \<not> paused cfg then
           update_waves width height cfg delta (st1\<lparr>accumulatedTime := accumulatedTime st1 + delta\<rparr>)
         else st1)"

text \<open>The collision pass on the two arrays of the state.\<close>

definition collide :: "State \<Rightarrow> State" where
  "collide st =
     (let n = length (particles st);
          allParticles = resolve_collisions (map Inl (particles st) @ map Inr (ambientParticles st))
      in st\<lparr>particles := map the_particle (take n allParticles),
            ambientParticles := map the_ambient (drop n allParticles)\<rparr>)"

text \<open>The two particle loops after the collision pass.\<close>

definition move_all :: "(nat \<Rightarrow> real) \<Rightarrow> real \<Rightarrow> real \<Rightarrow> Config \<Rightarrow> Mouse \<Rightarrow> State \<Rightarrow> State" where
  "move_all rnd width height cfg m st =
     (let time = accumulatedTime st;
          ptr = pointer_of width height (zoom_of cfg time) m
      in case step_particles rnd cfg time (waves st) ptr (draws st) (particles st) of
           (ps, k) \<Rightarrow>
             (case step_ambients rnd cfg ptr k (ambientParticles st) of
                (as, k') \<Rightarrow> st\<lparr>particles := ps, ambientParticles := as, draws := k'\<rparr>))"

definition draw :: "(nat \<Rightarrow> real) \<Rightarrow> real \<Rightarrow> real \<Rightarrow> Config \<Rightarrow> Mouse \<Rightarrow> real \<Rightarrow> State \<Rightarrow> State" where
  "draw rnd width height cfg m rafTime st =
     move_all rnd width height cfg m (collide (tick_clock width height cfg rafTime st))"

text \<open>
  A run of the animation: one \<^verbatim>\<open>draw\<close> per frame, each with the configuration and the
  pointer sample the refs hold at that frame, and the timestamp the scheduler passes.
\<close>

fun run :: "(nat \<Rightarrow> real) \<Rightarrow> real \<Rightarrow> real \<Rightarrow> (Config \<times> Mouse \<times> real) list \<Rightarrow> State \<Rightarrow> State" where
  "run rnd width height [] st = st"
| "run rnd width height ((cfg, m, rafTime) # frames) st =
     run rnd width height frames (draw rnd width height cfg m rafTime st)"

subsection \<open>The spawner: \<^verbatim>\<open>createMask\<close>\<close>

text \<open>
  The rasterised word is an input: \<open>imgData\<close> is the RGBA byte array that
  \<^verbatim>\<open>getImageData(0, 0, width, height).data\<close> returns. A read past its end is \<^verbatim>\<open>undefined\<close>
  in JavaScript, and \<^verbatim>\<open>undefined > 128\<close> is false.
\<close>

definition isTextCell :: "nat list \<Rightarrow> nat \<Rightarrow> nat \<Rightarrow> nat \<Rightarrow> bool" where
  "isTextCell imgData width cx cy =
     (let i = (cy * width + cx) * 4
      in i + 3 < length imgData \<and> imgData ! (i + 3) > 128)"

text \<open>The values of a loop \<^verbatim>\<open>for (let v = 0; v < n; v += GRID_SPACING)\<close>.\<close>

definition grid_coords :: "nat \<Rightarrow> nat list" where
  "grid_coords n = filter (\<lambda>v. v mod GRID_SPACING = 0) [0..<n]"

text \<open>The cells \<open>(x, y)\<close> in the order the nested loops visit them (\<open>y\<close> outside).\<close>

definition cells :: "nat \<Rightarrow> nat \<Rightarrow> (nat \<times> nat) list" where
  "cells width height = concat (map (\<lambda>cy. map (\<lambda>cx. (cx, cy)) (grid_coords width)) (grid_coords height))"

text \<open>
  The bounding box \<open>(minX, maxX, minY, maxY)\<close> of the foreground cells; \<open>None\<close> stands for
  the initial \<^verbatim>\<open>(Infinity, -Infinity, Infinity, -Infinity)\<close>, which the first foreground
  cell replaces in all four components.
\<close>

definition bbox_add ::
  "nat list \<Rightarrow> nat \<Rightarrow> nat \<times> nat \<Rightarrow> (real \<times> real \<times> real \<times> real) option \<Rightarrow> (real \<times> real \<times> real \<times> real) option" where
  "bbox_add imgData width c box =
     (if isTextCell imgData width (fst c) (snd c) then
        (case box of
           None \<Rightarrow> Some (real (fst c), real (fst c), real (snd c), real (snd c))
         | Some (minX, maxX, minY, maxY) \<Rightarrow>
             Some (min (real (fst c)) minX, max (real (fst c)) maxX,
                   min (real (snd c)) minY, max (real (snd c)) maxY))
      else box)"

definition bbox :: "nat list \<Rightarrow> nat \<Rightarrow> nat \<Rightarrow> (real \<times> real \<times> real \<times> real) option" where
  "bbox imgData width height = fold (bbox_add imgData width) (cells width height) None"

definition safeWord :: "string \<Rightarrow> string" where
  "safeWord word = (if word = [] then '' '' else word)"

definition textCenterX :: "nat list \<Rightarrow> nat \<Rightarrow> nat \<Rightarrow> real" where
  "textCenterX imgData width height =
     (case bbox imgData width height of
        None \<Rightarrow> real width / 2
      | Some (minX, maxX, minY, maxY) \<Rightarrow> (minX + maxX) / 2)"

definition textCenterY :: "nat list \<Rightarrow> nat \<Rightarrow> nat \<Rightarrow> real" where
  "textCenterY imgData width height =
     (case bbox imgData width height of
        None \<Rightarrow> real height / 2
      | Some (minX, maxX, minY, maxY) \<Rightarrow> (minY + maxY) / 2)"

text \<open>\<^verbatim>\<open>waveOrigin.x\<close>; \<^verbatim>\<open>waveOrigin.y\<close> is \<open>textCenterY\<close>.\<close>

definition waveOriginX :: "string \<Rightarrow> nat list \<Rightarrow> nat \<Rightarrow> nat \<Rightarrow> real" where
  "waveOriginX word imgData width height =
     (case bbox imgData width height of
        None \<Rightarrow> real width / 2
      | Some (minX, maxX, minY, maxY) \<Rightarrow>
          (let numLetters = length (safeWord word);
               totalWidth = max 1 (maxX - minX);
               approxLetterWidth = totalWidth / max 1 (real numLetters)
           in minX + approxLetterWidth * (1 / 2)))"

definition approxAmbientTarget :: "Config \<Rightarrow> int" where
  "approxAmbientTarget cfg = max 10 \<lfloor>ambientCount cfg\<rfloor>"

text \<open>
  The jitter of a kept cell, from the draw \<open>r\<close>: \<^verbatim>\<open>randRange(-0.2, 0.2)\<close> for text,
  \<^verbatim>\<open>randRange(-JITTER_AMOUNT * 3, JITTER_AMOUNT * 3)\<close> for background.
\<close>

definition jitter :: "bool \<Rightarrow> real \<Rightarrow> real" where
  "jitter isT r =
     (if isT then randRange (- (2 / 10)) (2 / 10) r
      else randRange (- JITTER_AMOUNT * 3) (JITTER_AMOUNT * 3) r)"

text \<open>
  The object pushed on \<^verbatim>\<open>particles\<close> for the cell \<open>(cx, cy)\<close> (lines 198 to 226). \<open>k1\<close> is
  the number of draws made before it: two for the jitter, then \<^verbatim>\<open>phase\<close>, \<^verbatim>\<open>friction\<close> and
  \<^verbatim>\<open>mass\<close> in the order of the object literal.
\<close>

definition new_particle ::
  "(nat \<Rightarrow> real) \<Rightarrow> bool \<Rightarrow> real \<Rightarrow> real \<Rightarrow> real \<Rightarrow> real \<Rightarrow> real \<Rightarrow> real \<Rightarrow> nat \<Rightarrow> Particle" where
  "new_particle rnd isT cx cy tcx tcy ox oy k1 =
     (let bX = cx - tcx;
          bY = cy - tcy;
          jX = jitter isT (rnd k1);
          jY = jitter isT (rnd (k1 + 1));
          ddx = cx - ox;
          ddy = cy - oy
      in \<lparr>baseX = bX, baseY = bY, x = bX + jX, y = bY + jY, vx = 0, vy = 0,
          friction = randRange (92 / 100) (97 / 100) (rnd (k1 + 3)),
          mass = randRange (6 / 10) (14 / 10) (rnd (k1 + 4)),
          radius = TEXT_RADIUS,
          dist_w = hypot ddx ddy, angle = atan2 ddy ddx, isText = isT,
          activation = (if isT then 0 else 1), jitterX = jX, jitterY = jY,
          phase = rnd (k1 + 2) * pi * 2\<rparr>)"

text \<open>
  The object pushed on \<^verbatim>\<open>ambientParticles\<close> for a background cell (lines 229 to 239),
  after the draw \<open>rnd k2\<close> of the test \<^verbatim>\<open>Math.random() < 0.1\<close>.
\<close>

definition promoted_ambient ::
  "(nat \<Rightarrow> real) \<Rightarrow> real \<Rightarrow> real \<Rightarrow> real \<Rightarrow> real \<Rightarrow> nat \<Rightarrow> AmbientParticle" where
  "promoted_ambient rnd bX bY jX jY k2 =
     \<lparr>baseX = bX, baseY = bY, x = bX + jX, y = bY + jY, vx = 0, vy = 0,
      friction = randRange (90 / 100) (96 / 100) (rnd (k2 + 1)),
      mass = randRange (5 / 10) (15 / 10) (rnd (k2 + 2)),
      radius = BG_RADIUS\<rparr>"

text \<open>
  The body of the second pair of loops for the cell \<open>c\<close>. The accumulator holds the two
  arrays and the number of random draws; each of the two keep tests draws only for its
  own kind of cell, so every cell costs one draw there.
\<close>

definition spawn_cell ::
  "(nat \<Rightarrow> real) \<Rightarrow> int \<Rightarrow> nat list \<Rightarrow> nat \<Rightarrow> real \<Rightarrow> real \<Rightarrow> real \<Rightarrow> real \<Rightarrow> nat \<times> nat \<Rightarrow>
     Particle list \<times> AmbientParticle list \<times> nat \<Rightarrow> Particle list \<times> AmbientParticle list \<times> nat" where
  "spawn_cell rnd target imgData width tcx tcy ox oy c acc =
     (case acc of (ps, as, k) \<Rightarrow>
        (let cx = real (fst c); cy = real (snd c);
             isT = isTextCell imgData width (fst c) (snd c);
             k1 = k + 1
         in if isT \<and> rnd k > TEXT_KEEP_PROB then (ps, as, k1)
            else if \<not> isT \<and> rnd k > BACKGROUND_KEEP_PROB then (ps, as, k1)
            else
              (let p = new_particle rnd isT cx cy tcx tcy ox oy k1;
                   k2 = k1 + 5
               in if \<not> isT \<and> int (length as) < target then
                    (if rnd k2 < 1 / 10 then
                       (ps @ [p],
                        as @ [promoted_ambient rnd (cx - tcx) (cy - tcy) (jitterX p) (jitterY p) k2],
                        k2 + 3)
                     else (ps @ [p], as, k2 + 1))
                  else (ps @ [p], as, k2))))"

text \<open>
  The object the loop \<^verbatim>\<open>while (ambientParticles.length < approxAmbientTarget)\<close> pushes
  (four draws), and the loop.
\<close>

definition synthesized_ambient :: "(nat \<Rightarrow> real) \<Rightarrow> real \<Rightarrow> real \<Rightarrow> nat \<Rightarrow> AmbientParticle" where
  "synthesized_ambient rnd width height k =
     \<lparr>baseX = randRange (- width * (1 / 2)) (width * (1 / 2)) (rnd k),
      baseY = randRange (- height * (1 / 2)) (height * (1 / 2)) (rnd (k + 1)),
      x = 0, y = 0, vx = 0, vy = 0,
      friction = randRange (90 / 100) (96 / 100) (rnd (k + 2)),
      mass = randRange (5 / 10) (15 / 10) (rnd (k + 3)),
      radius = BG_RADIUS\<rparr>"

function top_up ::
  "(nat \<Rightarrow> real) \<Rightarrow> int \<Rightarrow> real \<Rightarrow> real \<Rightarrow> AmbientParticle list \<Rightarrow> nat \<Rightarrow> AmbientParticle list \<times> nat" where
  "top_up rnd target width height as k =
     (if int (length as) < target then
        top_up rnd target width height (as @ [synthesized_ambient rnd width height k]) (k + 4)
      else (as, k))"
  by pat_completeness auto
termination
  by (relation "measure (\<lambda>(rnd, target, width, height, as, k). nat (target - int (length as)))") auto

declare top_up.simps [simp del]

text \<open>The state of the effect before \<^verbatim>\<open>createMask\<close> runs: empty arrays, clocks at 0.\<close>

definition initial_state :: State where
  "initial_state =
     \<lparr>particles = [], ambientParticles = [], waves = [], lastRafTime = 0,
      accumulatedTime = 0, timeSinceLastWave = 0, draws = 0\<rparr>"

text \<open>The two arrays after the loops over the cells, before the top-up.\<close>

definition spawn_cells ::
  "(nat \<Rightarrow> real) \<Rightarrow> nat \<Rightarrow> nat \<Rightarrow> string \<Rightarrow> nat list \<Rightarrow> Config \<Rightarrow>
     Particle list \<times> AmbientParticle list \<times> nat" where
  "spawn_cells rnd width height word imgData cfg =
     fold (spawn_cell rnd (approxAmbientTarget cfg) imgData width
             (textCenterX imgData width height) (textCenterY imgData width height)
             (waveOriginX word imgData width height) (textCenterY imgData width height))
       (cells width height) ([], [], 0)"

text \<open>
  \<^verbatim>\<open>createMask(word)\<close> on the fresh arrays of the effect. A canvas of width or height 0
  builds nothing (\<^verbatim>\<open>if (off.width === 0 || off.height === 0) return\<close>).
\<close>

definition createMask ::
  "(nat \<Rightarrow> real) \<Rightarrow> nat \<Rightarrow> nat \<Rightarrow> string \<Rightarrow> nat list \<Rightarrow> Config \<Rightarrow> State" where
  "createMask rnd width height word imgData cfg =
     (if width = 0 \<or> height = 0 then initial_state
      else
        (case spawn_cells rnd width height word imgData cfg of
           (ps, as, k) \<Rightarrow>
             (case top_up rnd (approxAmbientTarget cfg) (real width) (real height) as k of
                (as', k') \<Rightarrow>
                  initial_state\<lparr>particles := ps, ambientParticles := as', draws := k'\<rparr>)))"

subsection \<open>Notions used to state the properties\<close>

text \<open>
  The wave array holds the oldest wave first. Every wave starts at radius 0 and all grow
  by the same amount per frame, so in a run whose frames have a non-negative
  \<open>delta * waveSpeed\<close> the radii are non-negative and never increase along the array.
\<close>

definition waves_ordered :: "Wave list \<Rightarrow> bool" where
  "waves_ordered ws =
     (sorted_wrt (\<lambda>a b. wave_radius b \<le> wave_radius a) ws \<and> list_all (\<lambda>w. 0 \<le> wave_radius w) ws)"

text \<open>
  The test of line 377 for a pair, the collision normal \<^verbatim>\<open>(nx, ny)\<close> from \<open>p1\<close> to \<open>p2\<close>,
  and the velocity component of a particle along a direction.
\<close>

definition overlapping :: "AnyParticle \<Rightarrow> AnyParticle \<Rightarrow> bool" where
  "overlapping p1 p2 =
     (let distSq = (getX p2 - getX p1) * (getX p2 - getX p1) + (getY p2 - getY p1) * (getY p2 - getY p1);
          minDist = getRadius p1 + getRadius p2
      in distSq < minDist * minDist \<and> distSq > 1 / 1000)"

definition collision_normal :: "AnyParticle \<Rightarrow> AnyParticle \<Rightarrow> real \<times> real" where
  "collision_normal p1 p2 =
     (let d = sqrt ((getX p2 - getX p1) * (getX p2 - getX p1) + (getY p2 - getY p1) * (getY p2 - getY p1))
      in ((getX p2 - getX p1) / d, (getY p2 - getY p1) / d))"

definition normal_velocity :: "real \<times> real \<Rightarrow> AnyParticle \<Rightarrow> real" where
  "normal_velocity n q = getVx q * fst n + getVy q * snd n"

text \<open>
  The one-dimensional elastic collision the specification names: the velocity after the
  collision of a body of mass \<open>m1\<close> and velocity \<open>u1\<close> that meets a body of mass \<open>m2\<close> and
  velocity \<open>u2\<close>. It is the exchange that keeps momentum and kinetic energy
  (\<open>elastic_1d_conserves\<close> below).
\<close>

definition elastic_1d :: "real \<Rightarrow> real \<Rightarrow> real \<Rightarrow> real \<Rightarrow> real" where
  "elastic_1d m1 m2 u1 u2 = ((m1 - m2) * u1 + 2 * m2 * u2) / (m1 + m2)"

text \<open>
  A dust particle with its home blanked, and a state with the homes of all its dust
  blanked: two states with the same image differ at most in \<^verbatim>\<open>baseX\<close> and \<^verbatim>\<open>baseY\<close> of
  ambient particles.
\<close>

definition forget_home :: "AmbientParticle \<Rightarrow> AmbientParticle" where
  "forget_home a = a\<lparr>baseX := 0, baseY := 0\<rparr>"

definition erase_homes :: "State \<Rightarrow> State" where
  "erase_homes st = st\<lparr>ambientParticles := map forget_home (ambientParticles st)\<rparr>"

text \<open>Every index stored in a grid is below \<open>n\<close>.\<close>

definition grid_below :: "Grid \<Rightarrow> nat \<Rightarrow> bool" where
  "grid_below g n = (\<forall>key js. g key = Some js \<longrightarrow> (\<forall>j \<in> set js. j < n))"

subsection \<open>Concrete inputs\<close>

text \<open>
  The configuration the component starts with (the argument of \<^verbatim>\<open>useState<Config>\<close>), and
  variants of it: with the intro played, paused during the intro, with the longest wave
  interval of the control panel, and with everything but the spring switched off (wave
  kick, stochastic bounce, pointer repulsion; the return strength is the largest of the
  control panel).
\<close>

definition defaultConfig :: Config where
  "defaultConfig =
     \<lparr>waveSpeed = 12 / 100, waveInterval = 1250, waveThickness = 32, radialKick = 2 / 10,
      noiseKick = 5 / 100, returnStrength = 4 / 100, bounceProb = 8 / 1000, ambientCount = 0,
      repulsionStrength = 20, repulsionRadius = 4, paused = False, skipIntro = True\<rparr>"

definition intro_config :: Config where
  "intro_config = defaultConfig\<lparr>skipIntro := False\<rparr>"

definition paused_config :: Config where
  "paused_config = intro_config\<lparr>paused := True\<rparr>"

definition slow_config :: Config where
  "slow_config = intro_config\<lparr>waveInterval := 3000\<rparr>"

definition spring_config :: Config where
  "spring_config =
     defaultConfig\<lparr>radialKick := 0, bounceProb := 0, returnStrength := 1 / 10, repulsionStrength := 0\<rparr>"

text \<open>Two constant streams of draws.\<close>

definition half_rnd :: "nat \<Rightarrow> real" where
  "half_rnd k = 1 / 2"

definition tenth_rnd :: "nat \<Rightarrow> real" where
  "tenth_rnd k = 1 / 10"

text \<open>The pixels of a 2 by 2 canvas on which nothing is painted: every alpha is 0.\<close>

definition blank_2x2 :: "nat list" where
  "blank_2x2 = replicate 16 0"

text \<open>Two inactive pointer samples, and an inactive pointer in local coordinates.\<close>

definition pointer_at_origin :: Mouse where
  "pointer_at_origin = \<lparr>mouseX = 0, mouseY = 0, active = False\<rparr>"

definition pointer_far_away :: Mouse where
  "pointer_far_away = \<lparr>mouseX = 1000000, mouseY = 1000000, active = False\<rparr>"

definition inactive_pointer :: Pointer where
  "inactive_pointer = \<lparr>isMouseActive = False, mouseLocalX = 0, mouseLocalY = 0\<rparr>"

text \<open>
  A state of the intro on an 800 by 600 canvas, one second after the first frame (which
  came at 16 ms): the first wave has radius \<open>0.12 * 1000 = 120\<close>; a text particle 200 px
  from the wave origin is one pixel to the right of its home, at rest, and revealed to
  1/7 (\<open>1 - (200 - 80) / 140\<close>); a dust particle is far from it.
\<close>

definition sample_particle :: Particle where
  "sample_particle =
     \<lparr>baseX = 0, baseY = 0, x = 1, y = 0, vx = 0, vy = 0,
      friction = 95 / 100, mass = 1, radius = TEXT_RADIUS,
      dist_w = 200, angle = 0, isText = True, activation = 1 / 7,
      jitterX = 0, jitterY = 0, phase = 0\<rparr>"

definition sample_ambient :: AmbientParticle where
  "sample_ambient =
     \<lparr>baseX = 7, baseY = 9, x = 100, y = 100, vx = 0, vy = 0,
      friction = 93 / 100, mass = 1, radius = BG_RADIUS\<rparr>"

definition sample_state :: State where
  "sample_state =
     \<lparr>particles = [sample_particle], ambientParticles = [sample_ambient],
      waves = [\<lparr>wave_radius = 120\<rparr>],
      lastRafTime = 1016, accumulatedTime = 1000, timeSinceLastWave = 1000, draws = 40\<rparr>"

text \<open>The sample state with other homes for its dust.\<close>

definition sample_state_rehomed :: State where
  "sample_state_rehomed =
     sample_state\<lparr>ambientParticles := [sample_ambient\<lparr>baseX := - 250, baseY := 120\<rparr>]\<rparr>"

text \<open>
  The same scene ten seconds in, under the wave interval 3000 ms: four waves 360 px
  apart, the oldest at radius 1200, the largest radius that is still kept
  (\<open>hypot 800 600 + 200 = 1200\<close>).
\<close>

definition late_state :: State where
  "late_state =
     sample_state\<lparr>particles := [sample_particle\<lparr>activation := 1\<rparr>],
       waves := [\<lparr>wave_radius = 1200\<rparr>, \<lparr>wave_radius = 840\<rparr>, \<lparr>wave_radius = 480\<rparr>, \<lparr>wave_radius = 120\<rparr>],
       lastRafTime := 10016, accumulatedTime := 10000, timeSinceLastWave := 1000\<rparr>"

text \<open>A text particle moving right at speed 1 into a dust particle at rest one pixel away.\<close>

definition colliding_pair :: "AnyParticle list" where
  "colliding_pair =
     [Inl (sample_particle\<lparr>x := 0, vx := 1\<rparr>),
      Inr (sample_ambient\<lparr>x := 1, y := 0\<rparr>)]"

text \<open>
  The spring alone: a light text particle (mass 0.6, friction 0.96, both within the
  spawner's ranges), fully revealed, at rest one pixel to the right of its home; the
  sample state with this particle; and \<open>n\<close> consecutive frames under \<open>spring_config\<close>,
  16 ms apart, with the pointer inactive.
\<close>

definition spring_particle :: Particle where
  "spring_particle = sample_particle\<lparr>friction := 24 / 25, mass := 6 / 10, activation := 1\<rparr>"

definition spring_state :: State where
  "spring_state = sample_state\<lparr>particles := [spring_particle]\<rparr>"

definition spring_frames :: "nat \<Rightarrow> (Config \<times> Mouse \<times> real) list" where
  "spring_frames n = map (\<lambda>i. (spring_config, pointer_at_origin, 1032 + 16 * real i)) [0..<n]"

text \<open>
  The same particle followed through frames in which the collision pass does not touch
  it: the body of the particle loop, iterated (no waves, pointer inactive).
\<close>

definition spring_trajectory :: "nat \<Rightarrow> Particle" where
  "spring_trajectory n =
     ((\<lambda>q. fst (step_particle half_rnd spring_config 0 [] inactive_pointer 0 q)) ^^ n) spring_particle"

section \<open>Properties\<close>

subsection \<open>Fields the collision pass does not write\<close>

lemma list_update_frame:
  assumes "g q' = g (ps ! i)"
  shows "map g (ps[i := q']) = map g ps"
proof (cases "i < length ps")
  case True
  have "map g (ps[i := q']) = (map g ps)[i := map g ps ! i]"
    using True assms by (simp add: map_update)
  then show ?thesis by (simp only: list_update_id)
next
  case False
  then have "ps[i := q'] = ps" by (simp add: list_update_beyond not_less)
  then show ?thesis by simp
qed

lemma list_update2_frame:
  assumes "g a = g (ps ! i)" and "g b = g (ps ! j)"
  shows "map g (ps[i := a, j := b]) = map g ps"
proof -
  have "g b = g (ps[i := a] ! j)"
    using assms by (cases "i < length ps") (auto simp: nth_list_update list_update_beyond not_less)
  then have "map g (ps[i := a, j := b]) = map g (ps[i := a])"
    by (rule list_update_frame)
  also have "\<dots> = map g ps"
    using assms(1) by (rule list_update_frame)
  finally show ?thesis .
qed

lemma exchange_velocity_frame:
  assumes "\<And>a b q. g (addVel a b q) = g q"
  shows "map g (exchange_velocity nx ny i j ps) = map g ps"
  unfolding exchange_velocity_def Let_def
  by (simp add: list_update2_frame assms)

lemma resolve_pair_frame:
  assumes "\<And>a b q. g (addPos a b q) = g q" and "\<And>a b q. g (addVel a b q) = g q"
  shows "map g (resolve_pair i j ps) = map g ps"
  unfolding resolve_pair_def Let_def
  by (simp add: exchange_velocity_frame list_update2_frame assms)

lemma collide_cell_frame:
  assumes "\<And>a b q. g (addPos a b q) = g q" and "\<And>a b q. g (addVel a b q) = g q"
  shows "map g (collide_cell i js ps) = map g ps"
  unfolding collide_cell_def
  by (induction js arbitrary: ps) (simp_all add: resolve_pair_frame assms)

lemma collide_particle_frame:
  assumes "\<And>a b q. g (addPos a b q) = g q" and "\<And>a b q. g (addVel a b q) = g q"
  shows "map g (collide_particle gr i ps) = map g ps"
proof -
  have "map g (fold (\<lambda>off qs. case gr (fst c + fst off, snd c + snd off) of
                           None \<Rightarrow> qs
                         | Some js \<Rightarrow> collide_cell i js qs) offs ps) = map g ps" for c offs
    by (induction offs arbitrary: ps) (simp_all add: collide_cell_frame assms split: option.split)
  then show ?thesis unfolding collide_particle_def Let_def by simp
qed

lemma resolve_collisions_frame:
  assumes "\<And>a b q. g (addPos a b q) = g q" and "\<And>a b q. g (addVel a b q) = g q"
  shows "map g (resolve_collisions ps) = map g ps"
proof -
  have "map g (fold (collide_particle gr) is ps) = map g ps" for gr "is"
    by (induction "is" arbitrary: ps) (simp_all add: collide_particle_frame assms)
  then show ?thesis unfolding resolve_collisions_def by simp
qed

lemma length_resolve_collisions: "length (resolve_collisions ps) = length ps"
  using resolve_collisions_frame [of "\<lambda>_. ()" ps] by (metis length_map)

lemma isl_resolve_collisions: "map isl (resolve_collisions ps) = map isl ps"
  by (rule resolve_collisions_frame) (simp_all add: addPos_def addVel_def split: sum.split)

lemma particles_collide_frame:
  assumes "\<And>a b q. f (the_particle (addPos a b q)) = f (the_particle q)"
    and "\<And>a b q. f (the_particle (addVel a b q)) = f (the_particle q)"
  shows "map f (particles (collide st)) = map f (particles st)"
proof -
  let ?all = "map Inl (particles st) @ map Inr (ambientParticles st)"
  have "map (\<lambda>q. f (the_particle q)) (resolve_collisions ?all) = map (\<lambda>q. f (the_particle q)) ?all"
    by (rule resolve_collisions_frame) (simp_all add: assms)
  then have "take (length (particles st)) (map (\<lambda>q. f (the_particle q)) (resolve_collisions ?all))
      = take (length (particles st)) (map (\<lambda>q. f (the_particle q)) ?all)"
    by simp
  then show ?thesis
    by (simp add: collide_def Let_def take_map o_def)
qed

lemma ambients_collide_frame:
  assumes "\<And>a b q. f (the_ambient (addPos a b q)) = f (the_ambient q)"
    and "\<And>a b q. f (the_ambient (addVel a b q)) = f (the_ambient q)"
  shows "map f (ambientParticles (collide st)) = map f (ambientParticles st)"
proof -
  let ?all = "map Inl (particles st) @ map Inr (ambientParticles st)"
  have "map (\<lambda>q. f (the_ambient q)) (resolve_collisions ?all) = map (\<lambda>q. f (the_ambient q)) ?all"
    by (rule resolve_collisions_frame) (simp_all add: assms)
  then have "drop (length (particles st)) (map (\<lambda>q. f (the_ambient q)) (resolve_collisions ?all))
      = drop (length (particles st)) (map (\<lambda>q. f (the_ambient q)) ?all)"
    by simp
  then show ?thesis
    by (simp add: collide_def Let_def drop_map o_def)
qed

lemma length_particles_collide: "length (particles (collide st)) = length (particles st)"
  using particles_collide_frame [of "\<lambda>_. ()" st] by (metis length_map)

lemma collide_other_fields:
  "waves (collide st) = waves st"
  "lastRafTime (collide st) = lastRafTime st"
  "accumulatedTime (collide st) = accumulatedTime st"
  "timeSinceLastWave (collide st) = timeSinceLastWave st"
  "draws (collide st) = draws st"
  by (simp_all add: collide_def Let_def)

lemma fst_step_particles_Cons:
  "fst (step_particles rnd cfg time ws ptr k (p # ps)) =
     fst (step_particle rnd cfg time ws ptr k p) #
     fst (step_particles rnd cfg time ws ptr (snd (step_particle rnd cfg time ws ptr k p)) ps)"
  by (simp split: prod.split)

lemma length_step_particles:
  "length (fst (step_particles rnd cfg time ws ptr k ps)) = length ps"
  by (induction ps arbitrary: k) (simp_all only: fst_step_particles_Cons, simp_all)

lemma nth_step_particles:
  "i < length ps \<Longrightarrow>
     \<exists>k'. fst (step_particles rnd cfg time ws ptr k ps) ! i = fst (step_particle rnd cfg time ws ptr k' (ps ! i))"
proof (induction ps arbitrary: k i)
  case Nil
  then show ?case by simp
next
  case (Cons p ps)
  show ?case
  proof (cases i)
    case 0
    then show ?thesis by (simp only: fst_step_particles_Cons nth_Cons_0) blast
  next
    case (Suc n)
    with Cons.prems have "n < length ps" by simp
    from Cons.IH [OF this] show ?thesis
      unfolding Suc fst_step_particles_Cons nth_Cons_Suc by blast
  qed
qed

lemma particles_move_all:
  "particles (move_all rnd width height cfg m st) =
     fst (step_particles rnd cfg (accumulatedTime st) (waves st)
            (pointer_of width height (zoom_of cfg (accumulatedTime st)) m) (draws st) (particles st))"
  by (simp add: move_all_def Let_def split: prod.split)

lemma length_particles_draw:
  "length (particles (draw rnd width height cfg m rafTime st)) = length (particles st)"
proof -
  have "length (particles (tick_clock width height cfg rafTime st)) = length (particles st)"
    by (simp add: tick_clock_def update_waves_def Let_def)
  then show ?thesis
    by (simp add: draw_def particles_move_all length_step_particles length_particles_collide)
qed

subsection \<open>An inactive pointer\<close>

lemma mouse_kick_inactive: "\<not> isMouseActive ptr \<Longrightarrow> mouse_kick cfg ptr p = (0, 0)"
  by (simp add: mouse_kick_def)

lemma step_particle_inactive:
  "\<not> isMouseActive ptr \<Longrightarrow> \<not> isMouseActive ptr' \<Longrightarrow>
     step_particle rnd cfg time ws ptr k p = step_particle rnd cfg time ws ptr' k p"
  by (simp add: step_particle_def mouse_kick_inactive)

lemma step_particles_inactive:
  "\<not> isMouseActive ptr \<Longrightarrow> \<not> isMouseActive ptr' \<Longrightarrow>
     step_particles rnd cfg time ws ptr k ps = step_particles rnd cfg time ws ptr' k ps"
  by (induction ps arbitrary: k) (simp_all add: step_particle_inactive [of ptr ptr'])

lemma step_ambient_inactive:
  "\<not> isMouseActive ptr \<Longrightarrow> \<not> isMouseActive ptr' \<Longrightarrow>
     step_ambient rnd cfg ptr k a = step_ambient rnd cfg ptr' k a"
  by (simp add: step_ambient_def)

lemma step_ambients_inactive:
  "\<not> isMouseActive ptr \<Longrightarrow> \<not> isMouseActive ptr' \<Longrightarrow>
     step_ambients rnd cfg ptr k as = step_ambients rnd cfg ptr' k as"
  by (induction as arbitrary: k) (simp_all add: step_ambient_inactive [of ptr ptr'])

lemma move_all_inactive:
  assumes "\<not> active m1" and "\<not> active m2"
  shows "move_all rnd width height cfg m1 st = move_all rnd width height cfg m2 st"
proof -
  let ?p1 = "pointer_of width height (zoom_of cfg (accumulatedTime st)) m1"
  let ?p2 = "pointer_of width height (zoom_of cfg (accumulatedTime st)) m2"
  have i: "\<not> isMouseActive ?p1" "\<not> isMouseActive ?p2"
    using assms by (simp_all add: pointer_of_def)
  show ?thesis
    unfolding move_all_def Let_def
    by (simp only: step_particles_inactive [OF i] step_ambients_inactive [OF i])
qed

lemma integrate_static:
  "dist_w (integrate cfg a b p) = dist_w p"
  "angle (integrate cfg a b p) = angle p"
  "isText (integrate cfg a b p) = isText p"
  "activation (integrate cfg a b p) = activation p"
  by (simp_all add: integrate_def Let_def)


lemma reveal_activation:
  assumes "activation p \<le> 1"
  shows "activation p \<le> activation (reveal cfg fw p)" and "activation (reveal cfg fw p) \<le> 1"
  using assms by (auto simp: reveal_def Let_def revealWidth_def split: option.split)


lemma step_particle_activation:
  assumes "activation p \<le> 1"
  shows "activation p \<le> activation (fst (step_particle rnd cfg time ws ptr k p))"
    and "activation (fst (step_particle rnd cfg time ws ptr k p)) \<le> 1"
proof -
  obtain kx ky k' where f: "fold (wave_kick rnd cfg time p) ws (0, 0, k) = (kx, ky, k')"
    by (metis prod_cases3)
  let ?q = "integrate cfg (kx + fst (mouse_kick cfg ptr p)) (ky + snd (mouse_kick cfg ptr p)) p"
  have q: "activation ?q = activation p" by (simp add: integrate_static)
  have s: "fst (step_particle rnd cfg time ws ptr k p) =
      reveal cfg (firstWave ws) ?q"
    by (simp add: step_particle_def f Let_def)
  from assms q have "activation ?q \<le> 1" by simp
  from reveal_activation [OF this] q s
  show "activation p \<le> activation (fst (step_particle rnd cfg time ws ptr k p))"
    and "activation (fst (step_particle rnd cfg time ws ptr k p)) \<le> 1"
    by simp_all
qed

subsection \<open>Per-particle view of a frame\<close>

lemma particles_tick_clock [simp]:
  "particles (tick_clock width height cfg rafTime st) = particles st"
  "ambientParticles (tick_clock width height cfg rafTime st) = ambientParticles st"
  by (simp_all add: tick_clock_def update_waves_def Let_def)

lemma nth_particles_collide:
  assumes "\<And>a b q. f (the_particle (addPos a b q)) = f (the_particle q)"
    and "\<And>a b q. f (the_particle (addVel a b q)) = f (the_particle q)"
    and "i < length (particles st)"
  shows "f (particles (collide st) ! i) = f (particles st ! i)"
proof -
  have "map f (particles (collide st)) ! i = map f (particles st) ! i"
    by (simp only: particles_collide_frame [of f, OF assms(1,2)])
  then show ?thesis
    using assms(3) by (simp add: length_particles_collide)
qed

lemma the_particle_static:
  "dist_w (the_particle (addPos a b q)) = dist_w (the_particle q)"
  "dist_w (the_particle (addVel a b q)) = dist_w (the_particle q)"
  "angle (the_particle (addPos a b q)) = angle (the_particle q)"
  "angle (the_particle (addVel a b q)) = angle (the_particle q)"
  "isText (the_particle (addPos a b q)) = isText (the_particle q)"
  "isText (the_particle (addVel a b q)) = isText (the_particle q)"
  "activation (the_particle (addPos a b q)) = activation (the_particle q)"
  "activation (the_particle (addVel a b q)) = activation (the_particle q)"
  by (cases q; simp add: addPos_def addVel_def)+

lemma nth_particles_draw:
  assumes "i < length (particles st)"
  shows "\<exists>time ws ptr k.
     particles (draw rnd width height cfg m rafTime st) ! i =
       fst (step_particle rnd cfg time ws ptr k
              (particles (collide (tick_clock width height cfg rafTime st)) ! i))"
proof -
  let ?c = "collide (tick_clock width height cfg rafTime st)"
  have "i < length (particles ?c)"
    using assms by (simp add: length_particles_collide)
  from nth_step_particles [OF this] show ?thesis
    unfolding draw_def particles_move_all by blast
qed


lemma draw_activation:
  assumes "i < length (particles st)" and "activation (particles st ! i) \<le> 1"
  shows "activation (particles st ! i) \<le> activation (particles (draw rnd width height cfg m rafTime st) ! i)"
    and "activation (particles (draw rnd width height cfg m rafTime st) ! i) \<le> 1"
proof -
  let ?t = "tick_clock width height cfg rafTime st"
  from nth_particles_draw [OF assms(1)] obtain time ws ptr k where
    d: "particles (draw rnd width height cfg m rafTime st) ! i =
       fst (step_particle rnd cfg time ws ptr k (particles (collide ?t) ! i))"
    by blast
  have i: "i < length (particles ?t)" using assms by simp
  have c: "activation (particles (collide ?t) ! i) = activation (particles st ! i)"
    using nth_particles_collide [of activation, OF the_particle_static(7,8) i] by simp
  then have "activation (particles (collide ?t) ! i) \<le> 1" using assms(2) by simp
  from step_particle_activation [OF this, of rnd cfg time ws ptr k] c d
  show "activation (particles st ! i) \<le> activation (particles (draw rnd width height cfg m rafTime st) ! i)"
    and "activation (particles (draw rnd width height cfg m rafTime st) ! i) \<le> 1"
    by simp_all
qed

lemma run_append: "run rnd width height (fs @ gs) st = run rnd width height gs (run rnd width height fs st)"
  by (induction fs arbitrary: st) auto

lemma length_particles_run: "length (particles (run rnd width height fs st)) = length (particles st)"
  by (induction fs arbitrary: st) (auto simp: length_particles_draw)

lemma run_activation:
  assumes "i < length (particles st)" and "activation (particles st ! i) \<le> 1"
  shows "activation (particles st ! i) \<le> activation (particles (run rnd width height fs st) ! i)
       \<and> activation (particles (run rnd width height fs st) ! i) \<le> 1"
  using assms
proof (induction fs arbitrary: st)
  case Nil
  then show ?case by simp
next
  case (Cons f fs)
  obtain cfg m rafTime where f: "f = (cfg, m, rafTime)" by (cases f)
  let ?d = "draw rnd width height cfg m rafTime st"
  have 1: "i < length (particles ?d)" using Cons.prems(1) by (simp add: length_particles_draw)
  have 2: "activation (particles ?d ! i) \<le> 1" by (rule draw_activation(2) [OF Cons.prems])
  from Cons.IH [OF 1 2] draw_activation(1) [OF Cons.prems, of rnd width height cfg m rafTime]
  show ?case by (simp add: f)
qed

subsection \<open>The sample state, evaluated\<close>

lemma grid_sample:
  "build_grid [Inl sample_particle, Inr sample_ambient] = [(0, 0) \<mapsto> [0], (16, 16) \<mapsto> [1]]"
  by (simp add: build_grid_def grid_add_def cell_of_def getX_def getY_def CELL_SIZE_def
      sample_particle_def sample_ambient_def Let_def upt_rec)

lemma resolve_sample:
  "resolve_collisions [Inl sample_particle, Inr sample_ambient] = [Inl sample_particle, Inr sample_ambient]"
  unfolding resolve_collisions_def grid_sample
  by (simp add: upt_rec collide_particle_def neighbour_offsets_def cell_of_def getX_def getY_def
      CELL_SIZE_def sample_particle_def sample_ambient_def Let_def collide_cell_def)

lemma collide_sample: "collide sample_state = sample_state"
  by (simp add: collide_def sample_state_def resolve_sample)

lemma collide_lastRafTime: "collide (st\<lparr>lastRafTime := t\<rparr>) = (collide st)\<lparr>lastRafTime := t\<rparr>"
  by (simp add: collide_def Let_def)

lemma tick_clock_paused:
  "paused cfg \<Longrightarrow> tick_clock width height cfg rafTime st = st\<lparr>lastRafTime := rafTime\<rparr>"
  by (simp add: tick_clock_def Let_def)

lemma move_all_other_fields:
  "waves (move_all rnd width height cfg m st) = waves st"
  "lastRafTime (move_all rnd width height cfg m st) = lastRafTime st"
  "accumulatedTime (move_all rnd width height cfg m st) = accumulatedTime st"
  "timeSinceLastWave (move_all rnd width height cfg m st) = timeSinceLastWave st"
  by (simp_all add: move_all_def Let_def split: prod.split)

lemma paused_sample_frame:
  "particles (draw half_rnd 800 600 paused_config pointer_at_origin 1032 sample_state) =
     [sample_particle\<lparr>x := 481 / 500, vx := - (19 / 500)\<rparr>]"
proof -
  have p: "paused paused_config" by (simp add: paused_config_def intro_config_def)
  show ?thesis
    unfolding draw_def tick_clock_paused [OF p] collide_lastRafTime collide_sample
    by (simp add: move_all_def sample_state_def Let_def step_particle_def mouse_kick_def
        pointer_of_def pointer_at_origin_def wave_kick_def integrate_def reveal_def firstWave_def
        revealWidth_def sample_particle_def defaultConfig_def intro_config_def paused_config_def
        split: prod.split)
qed

subsection \<open>The wave array\<close>

lemma dropWhile_dead_eq_filter:
  assumes "sorted_wrt (\<lambda>a b. wave_radius b \<le> wave_radius a) ws"
  shows "dropWhile (\<lambda>w. wave_radius w > M) ws = filter (\<lambda>w. \<not> wave_radius w > M) ws"
  using assms
proof (induction ws)
  case Nil
  then show ?case by simp
next
  case (Cons w ws)
  show ?case
  proof (cases "wave_radius w > M")
    case True
    with Cons show ?thesis by simp
  next
    case False
    with Cons.prems have "\<forall>v\<in>set ws. \<not> wave_radius v > M" by auto
    then have "filter (\<lambda>w. \<not> wave_radius w > M) ws = ws" by (simp add: filter_id_conv)
    with False show ?thesis by simp
  qed
qed

lemma sorted_advance_waves:
  "sorted_wrt (\<lambda>a b. wave_radius b \<le> wave_radius a) ws \<Longrightarrow>
   sorted_wrt (\<lambda>a b. wave_radius b \<le> wave_radius a) (advance_waves delta speed ws)"
  by (simp add: advance_waves_def sorted_wrt_map)

lemma length_advance_waves [simp]: "length (advance_waves delta speed ws) = length ws"
  by (simp add: advance_waves_def)

lemma nth_advance_waves:
  "i < length ws \<Longrightarrow> wave_radius (advance_waves delta speed ws ! i) = wave_radius (ws ! i) + delta * speed"
  by (simp add: advance_waves_def)

lemma waves_ordered_advance:
  assumes "waves_ordered ws" and "0 \<le> delta * speed"
  shows "waves_ordered (advance_waves delta speed ws)"
proof -
  have "list_all (\<lambda>w. 0 \<le> wave_radius w) (advance_waves delta speed ws)"
    using assms by (auto simp: waves_ordered_def advance_waves_def list_all_iff)
  then show ?thesis
    using assms(1) by (simp add: waves_ordered_def sorted_advance_waves)
qed

lemma waves_ordered_remove:
  assumes "waves_ordered ws"
  shows "waves_ordered (remove_dead_waves width height ws)"
proof -
  have "remove_dead_waves width height ws = filter (\<lambda>w. \<not> wave_radius w > maxDist width height) ws"
    using assms by (simp add: remove_dead_waves_def waves_ordered_def dropWhile_dead_eq_filter)
  then show ?thesis
    using assms by (auto simp: waves_ordered_def sorted_wrt_filter list_all_iff)
qed

lemma waves_ordered_spawn:
  assumes "waves_ordered ws"
  shows "waves_ordered (ws @ [\<lparr>wave_radius = 0\<rparr>])"
  using assms by (auto simp: waves_ordered_def sorted_wrt_append list_all_iff)

lemma waves_update_waves:
  "waves (update_waves width height cfg delta st) =
      remove_dead_waves width height (advance_waves delta (waveSpeed cfg) (waves st))
   \<or> waves (update_waves width height cfg delta st) =
      remove_dead_waves width height (advance_waves delta (waveSpeed cfg) (waves st)) @ [\<lparr>wave_radius = 0\<rparr>]"
  by (simp add: update_waves_def Let_def)

lemma waves_draw_unpaused:
  assumes "\<not> paused cfg"
  shows "waves (draw rnd width height cfg m rafTime st) =
     waves (update_waves width height cfg (frame_delta rafTime st) st)"
proof -
  have "waves (update_waves width height cfg d (st\<lparr>lastRafTime := t, accumulatedTime := a\<rparr>))
      = waves (update_waves width height cfg d st)" for d t a
    by (simp add: update_waves_def Let_def)
  then show ?thesis
    using assms by (simp add: draw_def move_all_other_fields collide_other_fields tick_clock_def Let_def)
qed

lemma waves_ordered_draw:
  assumes "waves_ordered (waves st)" and "paused cfg \<or> 0 \<le> frame_delta rafTime st * waveSpeed cfg"
  shows "waves_ordered (waves (draw rnd width height cfg m rafTime st))"
proof (cases "paused cfg")
  case True
  then have "waves (draw rnd width height cfg m rafTime st) = waves st"
    by (simp add: draw_def tick_clock_paused move_all_other_fields collide_other_fields)
  with assms(1) show ?thesis by simp
next
  case False
  let ?r = "remove_dead_waves width height (advance_waves (frame_delta rafTime st) (waveSpeed cfg) (waves st))"
  from False assms(2) have "waves_ordered ?r"
    by (intro waves_ordered_remove waves_ordered_advance assms(1)) simp
  then show ?thesis
    using waves_update_waves [of width height cfg "frame_delta rafTime st" st]
    by (auto simp: waves_draw_unpaused [OF False] waves_ordered_spawn)
qed

lemma hypot_800_600: "hypot 800 600 = 1000"
proof -
  have "sqrt ((1000::real)\<^sup>2) = 1000" by simp
  then show ?thesis by (simp add: hypot_def)
qed

subsection \<open>One colliding pair\<close>

lemma get_addPos [simp]:
  "getX (addPos a b q) = getX q + a" "getY (addPos a b q) = getY q + b"
  "getVx (addPos a b q) = getVx q" "getVy (addPos a b q) = getVy q"
  "getMass (addPos a b q) = getMass q" "getRadius (addPos a b q) = getRadius q"
  by (cases q; simp add: addPos_def getX_def getY_def getVx_def getVy_def getMass_def getRadius_def)+

lemma get_addVel [simp]:
  "getX (addVel a b q) = getX q" "getY (addVel a b q) = getY q"
  "getVx (addVel a b q) = getVx q + a" "getVy (addVel a b q) = getVy q + b"
  "getMass (addVel a b q) = getMass q" "getRadius (addVel a b q) = getRadius q"
  by (cases q; simp add: addVel_def getX_def getY_def getVx_def getVy_def getMass_def getRadius_def)+

lemma elastic_1d_conserves:
  assumes "m1 + m2 \<noteq> 0"
  shows "m1 * elastic_1d m1 m2 u1 u2 + m2 * elastic_1d m2 m1 u2 u1 = m1 * u1 + m2 * u2"
    and "m1 * (elastic_1d m1 m2 u1 u2)\<^sup>2 + m2 * (elastic_1d m2 m1 u2 u1)\<^sup>2 = m1 * u1\<^sup>2 + m2 * u2\<^sup>2"
proof -
  define M where "M = m1 + m2"
  define a where "a = (m1 - m2) * u1 + 2 * m2 * u2"
  define b where "b = (m2 - m1) * u2 + 2 * m1 * u1"
  have M: "M \<noteq> 0" using assms by (simp add: M_def)
  have e: "elastic_1d m1 m2 u1 u2 = a / M" "elastic_1d m2 m1 u2 u1 = b / M"
    by (simp_all add: elastic_1d_def a_def b_def M_def add.commute)
  have "m1 * a + m2 * b = (m1 * u1 + m2 * u2) * M"
    unfolding a_def b_def M_def by algebra
  then have "(m1 * a + m2 * b) / M = m1 * u1 + m2 * u2"
    using M by simp
  then show "m1 * elastic_1d m1 m2 u1 u2 + m2 * elastic_1d m2 m1 u2 u1 = m1 * u1 + m2 * u2"
    unfolding e by (simp add: add_divide_distrib)
  have "m1 * a\<^sup>2 + m2 * b\<^sup>2 = (m1 * u1\<^sup>2 + m2 * u2\<^sup>2) * M\<^sup>2"
    unfolding a_def b_def M_def by algebra
  then have "(m1 * a\<^sup>2 + m2 * b\<^sup>2) / M\<^sup>2 = m1 * u1\<^sup>2 + m2 * u2\<^sup>2"
    using M by simp
  then show "m1 * (elastic_1d m1 m2 u1 u2)\<^sup>2 + m2 * (elastic_1d m2 m1 u2 u1)\<^sup>2 = m1 * u1\<^sup>2 + m2 * u2\<^sup>2"
    unfolding e by (simp add: add_divide_distrib power_divide)
qed

lemma exchange_velocity_nth:
  assumes "i < length ps" and "j < length ps" and "i \<noteq> j"
  shows "exchange_velocity nx ny i j ps ! i =
     (let v1n = getVx (ps ! i) * nx + getVy (ps ! i) * ny;
          v2n = getVx (ps ! j) * nx + getVy (ps ! j) * ny
      in if v1n < v2n then ps ! i
         else addVel ((elastic_1d (getMass (ps ! i)) (getMass (ps ! j)) v1n v2n - v1n) * nx * COLLISION_DAMPING)
                     ((elastic_1d (getMass (ps ! i)) (getMass (ps ! j)) v1n v2n - v1n) * ny * COLLISION_DAMPING) (ps ! i))"
    and "exchange_velocity nx ny i j ps ! j =
     (let v1n = getVx (ps ! i) * nx + getVy (ps ! i) * ny;
          v2n = getVx (ps ! j) * nx + getVy (ps ! j) * ny
      in if v1n < v2n then ps ! j
         else addVel ((elastic_1d (getMass (ps ! j)) (getMass (ps ! i)) v2n v1n - v2n) * nx * COLLISION_DAMPING)
                     ((elastic_1d (getMass (ps ! j)) (getMass (ps ! i)) v2n v1n - v2n) * ny * COLLISION_DAMPING) (ps ! j))"
  using assms
  by (simp_all add: exchange_velocity_def Let_def elastic_1d_def nth_list_update add.commute mult.commute)

lemma resolve_pair_overlapping:
  assumes "overlapping (ps ! i) (ps ! j)"
  shows "\<exists>a1 b1 a2 b2. resolve_pair i j ps =
     exchange_velocity (fst (collision_normal (ps ! i) (ps ! j))) (snd (collision_normal (ps ! i) (ps ! j))) i j
       (ps[i := addPos a1 b1 (ps ! i), j := addPos a2 b2 (ps ! j)])"
proof -
  have c: "(getX (ps ! j) - getX (ps ! i)) * (getX (ps ! j) - getX (ps ! i)) +
      (getY (ps ! j) - getY (ps ! i)) * (getY (ps ! j) - getY (ps ! i))
      < (getRadius (ps ! i) + getRadius (ps ! j)) * (getRadius (ps ! i) + getRadius (ps ! j))
    \<and> (getX (ps ! j) - getX (ps ! i)) * (getX (ps ! j) - getX (ps ! i)) +
      (getY (ps ! j) - getY (ps ! i)) * (getY (ps ! j) - getY (ps ! i)) > 1 / 1000"
    using assms unfolding overlapping_def Let_def .
  show ?thesis
    unfolding resolve_pair_def Let_def collision_normal_def
    by (simp only: c if_True fst_conv snd_conv simp_thms) blast
qed

subsection \<open>The spawner\<close>

lemma spawn_cell_particles_inv:
  assumes "list_all Q ps"
    and "\<And>isT k1. Q (new_particle rnd isT (real (fst c)) (real (snd c)) tcx tcy ox oy k1)"
  shows "list_all Q (fst (spawn_cell rnd target imgData width tcx tcy ox oy c (ps, as, k)))"
  using assms by (simp add: spawn_cell_def Let_def)

lemma spawn_cell_ambients_inv:
  assumes "list_all Q as" and "int (length as) \<le> target"
    and "\<And>bX bY jX jY k2. Q (promoted_ambient rnd bX bY jX jY k2)"
  shows "list_all Q (fst (snd (spawn_cell rnd target imgData width tcx tcy ox oy c (ps, as, k))))
       \<and> int (length (fst (snd (spawn_cell rnd target imgData width tcx tcy ox oy c (ps, as, k))))) \<le> target"
  using assms by (simp add: spawn_cell_def Let_def)

lemma fold_spawn_cell_particles_inv:
  assumes "list_all Q (fst acc)"
    and "\<And>c isT k1. c \<in> set cs \<Longrightarrow> Q (new_particle rnd isT (real (fst c)) (real (snd c)) tcx tcy ox oy k1)"
  shows "list_all Q (fst (fold (spawn_cell rnd target imgData width tcx tcy ox oy) cs acc))"
  using assms
proof (induction cs arbitrary: acc)
  case Nil
  then show ?case by simp
next
  case (Cons c cs)
  obtain ps as k where acc: "acc = (ps, as, k)" by (cases acc)
  have "list_all Q (fst (spawn_cell rnd target imgData width tcx tcy ox oy c acc))"
    unfolding acc using Cons.prems by (intro spawn_cell_particles_inv) (simp_all add: acc)
  then show ?case
    using Cons.prems(2) by (simp add: Cons.IH)
qed

lemma fold_spawn_cell_ambients_inv:
  assumes "list_all Q (fst (snd acc))" and "int (length (fst (snd acc))) \<le> target"
    and "\<And>bX bY jX jY k2. Q (promoted_ambient rnd bX bY jX jY k2)"
  shows "list_all Q (fst (snd (fold (spawn_cell rnd target imgData width tcx tcy ox oy) cs acc)))
       \<and> int (length (fst (snd (fold (spawn_cell rnd target imgData width tcx tcy ox oy) cs acc)))) \<le> target"
  using assms(1,2)
proof (induction cs arbitrary: acc)
  case Nil
  then show ?case by simp
next
  case (Cons c cs)
  obtain ps as k where acc: "acc = (ps, as, k)" by (cases acc)
  have "list_all Q (fst (snd (spawn_cell rnd target imgData width tcx tcy ox oy c acc)))
     \<and> int (length (fst (snd (spawn_cell rnd target imgData width tcx tcy ox oy c acc)))) \<le> target"
    unfolding acc using Cons.prems assms(3) by (intro spawn_cell_ambients_inv) (simp_all add: acc)
  then show ?case
    by (simp add: Cons.IH)
qed

lemma top_up_result:
  assumes "int (length as) \<le> target"
  shows "\<exists>ks. fst (top_up rnd target width height as k) = as @ map (synthesized_ambient rnd width height) ks
           \<and> int (length as + length ks) = target"
  using assms
proof (induction rnd target width height as k rule: top_up.induct)
  case (1 rnd target width height as k)
  show ?case
  proof (cases "int (length as) < target")
    case True
    then have "int (length (as @ [synthesized_ambient rnd width height k])) \<le> target" by simp
    from "1.IH" [OF True this] obtain ks where
      ks: "fst (top_up rnd target width height (as @ [synthesized_ambient rnd width height k]) (k + 4))
          = (as @ [synthesized_ambient rnd width height k]) @ map (synthesized_ambient rnd width height) ks"
        "int (length (as @ [synthesized_ambient rnd width height k]) + length ks) = target"
      by blast
    have "fst (top_up rnd target width height as k) = as @ map (synthesized_ambient rnd width height) (k # ks)"
      using True ks(1) by (subst top_up.simps) simp
    moreover have "int (length as + length (k # ks)) = target" using ks(2) by simp
    ultimately show ?thesis by blast
  next
    case False
    with "1.prems" have "int (length as) = target" by simp
    moreover have "fst (top_up rnd target width height as k) = as @ map (synthesized_ambient rnd width height) []"
      using False by (subst top_up.simps) simp
    ultimately show ?thesis by (metis add.right_neutral list.size(3))
  qed
qed

lemma approxAmbientTarget_ge: "10 \<le> approxAmbientTarget cfg"
  by (simp add: approxAmbientTarget_def)

lemma length_ambients_spawn_cells:
  "int (length (fst (snd (spawn_cells rnd width height word imgData cfg)))) \<le> approxAmbientTarget cfg"
proof -
  have 0: "list_all (\<lambda>_. True) (fst (snd (([]::Particle list), ([]::AmbientParticle list), (0::nat))))"
    by simp
  have 1: "int (length (fst (snd (([]::Particle list), ([]::AmbientParticle list), (0::nat))))) \<le> approxAmbientTarget cfg"
    using approxAmbientTarget_ge [of cfg] by simp
  show ?thesis
    unfolding spawn_cells_def
    using fold_spawn_cell_ambients_inv [of "\<lambda>_. True", OF 0 1] by blast
qed

lemma createMask_nonempty:
  assumes "0 < width" and "0 < height"
  shows "particles (createMask rnd width height word imgData cfg) =
           fst (spawn_cells rnd width height word imgData cfg)"
    and "ambientParticles (createMask rnd width height word imgData cfg) =
           fst (top_up rnd (approxAmbientTarget cfg) (real width) (real height)
                  (fst (snd (spawn_cells rnd width height word imgData cfg)))
                  (snd (snd (spawn_cells rnd width height word imgData cfg))))"
    and "waves (createMask rnd width height word imgData cfg) = []"
proof -
  obtain ps as k where s: "spawn_cells rnd width height word imgData cfg = (ps, as, k)"
    by (cases "spawn_cells rnd width height word imgData cfg")
  obtain as' k' where t: "top_up rnd (approxAmbientTarget cfg) (real width) (real height) as k = (as', k')"
    by (cases "top_up rnd (approxAmbientTarget cfg) (real width) (real height) as k")
  have c: "createMask rnd width height word imgData cfg =
      initial_state\<lparr>particles := ps, ambientParticles := as', draws := k'\<rparr>"
    using assms by (simp add: createMask_def s t)
  show "particles (createMask rnd width height word imgData cfg) =
           fst (spawn_cells rnd width height word imgData cfg)"
    unfolding c s by simp
  show "ambientParticles (createMask rnd width height word imgData cfg) =
           fst (top_up rnd (approxAmbientTarget cfg) (real width) (real height)
                  (fst (snd (spawn_cells rnd width height word imgData cfg)))
                  (snd (snd (spawn_cells rnd width height word imgData cfg))))"
    unfolding c s by (simp add: t)
  show "waves (createMask rnd width height word imgData cfg) = []"
    unfolding c by (simp add: initial_state_def)
qed

lemma ambients_createMask:
  assumes "0 < width" and "0 < height"
  shows "\<exists>ks. ambientParticles (createMask rnd width height word imgData cfg) =
           fst (snd (spawn_cells rnd width height word imgData cfg))
             @ map (synthesized_ambient rnd (real width) (real height)) ks
         \<and> int (length (fst (snd (spawn_cells rnd width height word imgData cfg))) + length ks)
             = approxAmbientTarget cfg"
  unfolding createMask_nonempty(2) [OF assms]
  by (rule top_up_result [OF length_ambients_spawn_cells])

lemma new_particle_fields [simp]:
  "radius (new_particle rnd isT cx cy tcx tcy ox oy k1) = TEXT_RADIUS"
  "isText (new_particle rnd isT cx cy tcx tcy ox oy k1) = isT"
  "activation (new_particle rnd isT cx cy tcx tcy ox oy k1) = (if isT then 0 else 1)"
  "dist_w (new_particle rnd isT cx cy tcx tcy ox oy k1) = hypot (cx - ox) (cy - oy)"
  "angle (new_particle rnd isT cx cy tcx tcy ox oy k1) = atan2 (cy - oy) (cx - ox)"
  "baseX (new_particle rnd isT cx cy tcx tcy ox oy k1) = cx - tcx"
  "baseY (new_particle rnd isT cx cy tcx tcy ox oy k1) = cy - tcy"
  by (simp_all add: new_particle_def Let_def)

lemma synthesized_ambient_fields [simp]:
  "x (synthesized_ambient rnd width height k) = 0"
  "y (synthesized_ambient rnd width height k) = 0"
  "vx (synthesized_ambient rnd width height k) = 0"
  "vy (synthesized_ambient rnd width height k) = 0"
  "radius (synthesized_ambient rnd width height k) = BG_RADIUS"
  by (simp_all add: synthesized_ambient_def)

lemma radius_particles_createMask:
  "list_all (\<lambda>p. radius p = TEXT_RADIUS) (particles (createMask rnd width height word imgData cfg))"
proof (cases "width = 0 \<or> height = 0")
  case True
  then show ?thesis by (simp add: createMask_def initial_state_def)
next
  case False
  then show ?thesis
    by (simp add: createMask_nonempty(1) spawn_cells_def fold_spawn_cell_particles_inv)
qed

lemma cells_2x2: "cells 2 2 = [(0, 0)]"
  by (simp add: cells_def grid_coords_def GRID_SPACING_def upt_rec)

lemma blank_not_text: "\<not> isTextCell blank_2x2 2 0 0"
  by (simp add: isTextCell_def blank_2x2_def)

subsection \<open>Maps the resolver cannot observe\<close>

text \<open>A map on the entries that the resolver cannot observe commutes with it.\<close>

lemma exchange_velocity_commute:
  assumes g: "\<And>q. getVx (h q) = getVx q" "\<And>q. getVy (h q) = getVy q" "\<And>q. getMass (h q) = getMass q"
    and v: "\<And>a b q. addVel a b (h q) = h (addVel a b q)"
    and l: "i < length ps" "j < length ps"
  shows "exchange_velocity nx ny i j (map h ps) = map h (exchange_velocity nx ny i j ps)"
  using l by (simp add: exchange_velocity_def Let_def g v map_update)

lemma resolve_pair_commute:
  assumes g: "\<And>q. getX (h q) = getX q" "\<And>q. getY (h q) = getY q"
      "\<And>q. getVx (h q) = getVx q" "\<And>q. getVy (h q) = getVy q"
      "\<And>q. getMass (h q) = getMass q" "\<And>q. getRadius (h q) = getRadius q"
    and p: "\<And>a b q. addPos a b (h q) = h (addPos a b q)"
    and v: "\<And>a b q. addVel a b (h q) = h (addVel a b q)"
    and l: "i < length ps" "j < length ps"
  shows "resolve_pair i j (map h ps) = map h (resolve_pair i j ps)"
proof -
  have e: "exchange_velocity nx ny i j (map h qs) = map h (exchange_velocity nx ny i j qs)"
    if "length qs = length ps" for nx ny qs
    using that l by (intro exchange_velocity_commute g v) simp_all
  have u: "(map h ps)[i := addPos a b (h (ps ! i)), j := addPos c d (h (ps ! j))]
      = map h (ps[i := addPos a b (ps ! i), j := addPos c d (ps ! j)])" for a b c d
    by (simp add: map_update p)
  show ?thesis
    using l unfolding resolve_pair_def Let_def
    by (simp add: g u e)
qed

lemma length_resolve_pair [simp]: "length (resolve_pair i j ps) = length ps"
  using resolve_pair_frame [of "\<lambda>_. ()" i j ps] by (metis length_map)

lemma length_collide_cell [simp]: "length (collide_cell i js ps) = length ps"
  using collide_cell_frame [of "\<lambda>_. ()" i js ps] by (metis length_map)

lemma length_collide_particle [simp]: "length (collide_particle g i ps) = length ps"
  using collide_particle_frame [of "\<lambda>_. ()" g i ps] by (metis length_map)

lemma collide_cell_commute:
  assumes g: "\<And>q. getX (h q) = getX q" "\<And>q. getY (h q) = getY q"
      "\<And>q. getVx (h q) = getVx q" "\<And>q. getVy (h q) = getVy q"
      "\<And>q. getMass (h q) = getMass q" "\<And>q. getRadius (h q) = getRadius q"
    and p: "\<And>a b q. addPos a b (h q) = h (addPos a b q)"
    and v: "\<And>a b q. addVel a b (h q) = h (addVel a b q)"
    and l: "i < length ps" "\<forall>j \<in> set js. j < length ps"
  shows "collide_cell i js (map h ps) = map h (collide_cell i js ps)"
  using l
proof (induction js arbitrary: ps)
  case Nil
  then show ?case by (simp add: collide_cell_def)
next
  case (Cons j js)
  have s: "collide_cell i (j # js) qs = collide_cell i js (if i = j then qs else resolve_pair i j qs)" for qs
    by (simp add: collide_cell_def)
  have r: "resolve_pair i j (map h ps) = map h (resolve_pair i j ps)"
    using Cons.prems by (intro resolve_pair_commute g p v) simp_all
  show ?case
  proof (cases "i = j")
    case True
    have t: "collide_cell i (j # js) qs = collide_cell i js qs" for qs
      using True by (simp add: collide_cell_def)
    have "collide_cell i js (map h ps) = map h (collide_cell i js ps)"
      using Cons.prems by (intro Cons.IH) simp_all
    then show ?thesis unfolding t .
  next
    case False
    have "collide_cell i js (map h (resolve_pair i j ps)) = map h (collide_cell i js (resolve_pair i j ps))"
      using Cons.prems by (intro Cons.IH) simp_all
    then show ?thesis using False by (simp add: s r)
  qed
qed

lemma collide_particle_commute:
  assumes g: "\<And>q. getX (h q) = getX q" "\<And>q. getY (h q) = getY q"
      "\<And>q. getVx (h q) = getVx q" "\<And>q. getVy (h q) = getVy q"
      "\<And>q. getMass (h q) = getMass q" "\<And>q. getRadius (h q) = getRadius q"
    and p: "\<And>a b q. addPos a b (h q) = h (addPos a b q)"
    and v: "\<And>a b q. addVel a b (h q) = h (addVel a b q)"
    and l: "i < length ps" "grid_below gr (length ps)"
  shows "collide_particle gr i (map h ps) = map h (collide_particle gr i ps)"
proof -
  have c: "cell_of (map h ps ! i) = cell_of (ps ! i)"
    using l(1) by (simp add: cell_of_def g)
  have "fold (\<lambda>off qs. case gr (fst c + fst off, snd c + snd off) of
                           None \<Rightarrow> qs | Some js \<Rightarrow> collide_cell i js qs) offs (map h qs)
      = map h (fold (\<lambda>off qs. case gr (fst c + fst off, snd c + snd off) of
                           None \<Rightarrow> qs | Some js \<Rightarrow> collide_cell i js qs) offs qs)"
    if "length qs = length ps" for c offs qs
    using that
  proof (induction offs arbitrary: qs)
    case Nil
    then show ?case by simp
  next
    case (Cons off offs)
    show ?case
    proof (cases "gr (fst c + fst off, snd c + snd off)")
      case None
      then show ?thesis using Cons by simp
    next
      case (Some js)
      then have "\<forall>j \<in> set js. j < length qs"
        using l(2) Cons.prems unfolding grid_below_def by metis
      then have "collide_cell i js (map h qs) = map h (collide_cell i js qs)"
        using l(1) Cons.prems by (intro collide_cell_commute g p v) simp_all
      then show ?thesis using Some Cons by simp
    qed
  qed
  then show ?thesis
    unfolding collide_particle_def Let_def c by simp
qed

lemma grid_below_build_grid: "grid_below (build_grid ps) (length ps)"
proof -
  have "grid_below (fold (grid_add ps) is g) n"
    if "grid_below g n" "\<forall>i \<in> set is. i < n" for "is" g n
    using that
  proof (induction "is" arbitrary: g)
    case Nil
    then show ?case by simp
  next
    case (Cons i "is")
    have "grid_below (grid_add ps i g) n"
      unfolding grid_below_def
    proof (intro allI impI ballI)
      fix key js j
      assume a: "grid_add ps i g key = Some js" and j: "j \<in> set js"
      have old: "j < n" if "g key = Some l" "j \<in> set l" for l
        using that Cons.prems(1) unfolding grid_below_def by blast
      show "j < n"
      proof (cases "key = cell_of (ps ! i)")
        case True
        then have js: "js = (case g key of None \<Rightarrow> [] | Some l \<Rightarrow> l) @ [i]"
          using a by (simp add: grid_add_def Let_def)
        show ?thesis
        proof (cases "g key")
          case None
          then show ?thesis using js j Cons.prems(2) by simp
        next
          case (Some l)
          then show ?thesis using js j Cons.prems(2) old [of l] by auto
        qed
      next
        case False
        then have "g key = Some js" using a by (simp add: grid_add_def Let_def)
        then show ?thesis using old j by blast
      qed
    qed
    then show ?case using Cons by simp
  qed
  from this [of Map.empty "length ps" "[0..<length ps]"] show ?thesis
    by (simp add: build_grid_def grid_below_def)
qed

lemma build_grid_commute:
  assumes "\<And>q. getX (h q) = getX q" "\<And>q. getY (h q) = getY q"
  shows "build_grid (map h ps) = build_grid ps"
proof -
  have "fold (grid_add (map h ps)) is g = fold (grid_add ps) is g"
    if "\<forall>i \<in> set is. i < length ps" for "is" g
    using that
    by (induction "is" arbitrary: g) (simp_all add: grid_add_def cell_of_def assms)
  then show ?thesis by (simp add: build_grid_def)
qed

lemma resolve_collisions_commute:
  assumes g: "\<And>q. getX (h q) = getX q" "\<And>q. getY (h q) = getY q"
      "\<And>q. getVx (h q) = getVx q" "\<And>q. getVy (h q) = getVy q"
      "\<And>q. getMass (h q) = getMass q" "\<And>q. getRadius (h q) = getRadius q"
    and p: "\<And>a b q. addPos a b (h q) = h (addPos a b q)"
    and v: "\<And>a b q. addVel a b (h q) = h (addVel a b q)"
  shows "resolve_collisions (map h ps) = map h (resolve_collisions ps)"
proof -
  have "fold (collide_particle gr) is (map h qs) = map h (fold (collide_particle gr) is qs)"
    if "grid_below gr (length qs)" "\<forall>i \<in> set is. i < length qs" for gr "is" qs
    using that
  proof (induction "is" arbitrary: qs)
    case Nil
    then show ?case by simp
  next
    case (Cons i "is")
    have "collide_particle gr i (map h qs) = map h (collide_particle gr i qs)"
      using Cons.prems by (intro collide_particle_commute g p v) simp_all
    moreover have "fold (collide_particle gr) is (map h (collide_particle gr i qs))
        = map h (fold (collide_particle gr) is (collide_particle gr i qs))"
      using Cons.prems by (intro Cons.IH) simp_all
    ultimately show ?case by simp
  qed
  from this [of "build_grid ps" ps "[0..<length ps]"] show ?thesis
    by (simp add: resolve_collisions_def build_grid_commute g grid_below_build_grid)
qed

subsection \<open>Blanking the homes of the dust\<close>

lemma get_forget [simp]:
  "getX (map_sum id forget_home q) = getX q" "getY (map_sum id forget_home q) = getY q"
  "getVx (map_sum id forget_home q) = getVx q" "getVy (map_sum id forget_home q) = getVy q"
  "getMass (map_sum id forget_home q) = getMass q" "getRadius (map_sum id forget_home q) = getRadius q"
  by (cases q; simp add: forget_home_def getX_def getY_def getVx_def getVy_def getMass_def getRadius_def)+

lemma add_forget:
  "addPos a b (map_sum id forget_home q) = map_sum id forget_home (addPos a b q)"
  "addVel a b (map_sum id forget_home q) = map_sum id forget_home (addVel a b q)"
  by (cases q; simp add: forget_home_def addPos_def addVel_def)+

lemma resolve_collisions_forget:
  "resolve_collisions (map (map_sum id forget_home) ps) = map (map_sum id forget_home) (resolve_collisions ps)"
  by (rule resolve_collisions_commute) (simp_all add: add_forget)

lemma isl_take_drop:
  assumes "map isl R = map isl (map Inl ps @ map Inr as)"
  shows "\<forall>q \<in> set (take (length ps) R). isl q" and "\<forall>q \<in> set (drop (length ps) R). \<not> isl q"
proof -
  have "map isl (take (length ps) R) = take (length ps) (map isl R)" by (simp add: take_map)
  also have "\<dots> = replicate (length ps) True" by (simp add: assms comp_def map_replicate_const)
  finally have t: "map isl (take (length ps) R) = replicate (length ps) True" .
  show "\<forall>q \<in> set (take (length ps) R). isl q"
  proof
    fix q assume "q \<in> set (take (length ps) R)"
    then have "isl q \<in> set (map isl (take (length ps) R))" by simp
    then show "isl q" unfolding t by simp
  qed
  have "map isl (drop (length ps) R) = drop (length ps) (map isl R)" by (simp add: drop_map)
  also have "\<dots> = replicate (length as) False" by (simp add: assms comp_def map_replicate_const)
  finally have d: "map isl (drop (length ps) R) = replicate (length as) False" .
  show "\<forall>q \<in> set (drop (length ps) R). \<not> isl q"
  proof
    fix q assume "q \<in> set (drop (length ps) R)"
    then have "isl q \<in> set (map isl (drop (length ps) R))" by simp
    then show "\<not> isl q" unfolding d by simp
  qed
qed

lemma collide_erase: "collide (erase_homes st) = erase_homes (collide st)"
proof -
  let ?E = "map_sum id forget_home"
  let ?ps = "particles st" and ?as = "ambientParticles st"
  let ?all = "map Inl ?ps @ map Inr ?as"
  let ?R = "resolve_collisions ?all"
  have all: "map Inl ?ps @ map Inr (map forget_home ?as) = map ?E ?all" by simp
  have "resolve_collisions (map Inl ?ps @ map Inr (map forget_home ?as)) = map ?E ?R"
    unfolding all by (rule resolve_collisions_forget)
  then have R: "resolve_collisions (map Inl ?ps @ map (Inr \<circ> forget_home) ?as) = map ?E ?R"
    by simp
  note k = isl_take_drop [OF isl_resolve_collisions [of ?all]]
  have p: "map the_particle (take (length ?ps) (map ?E ?R)) = map the_particle (take (length ?ps) ?R)"
    unfolding take_map map_map
  proof (rule map_cong [OF refl])
    fix q assume "q \<in> set (take (length ?ps) ?R)"
    with k(1) have "isl q" by blast
    then show "(the_particle \<circ> ?E) q = the_particle q" by (cases q) simp_all
  qed
  have a: "map the_ambient (drop (length ?ps) (map ?E ?R))
      = map (forget_home \<circ> the_ambient) (drop (length ?ps) ?R)"
    unfolding drop_map map_map
  proof (rule map_cong [OF refl])
    fix q assume "q \<in> set (drop (length ?ps) ?R)"
    with k(2) have "\<not> isl q" by blast
    then show "(the_ambient \<circ> ?E) q = (forget_home \<circ> the_ambient) q" by (cases q) simp_all
  qed
  show ?thesis
    by (simp add: collide_def erase_homes_def Let_def R p a)
qed

lemma step_ambient_forget:
  "step_ambient rnd cfg ptr k (forget_home a) =
     (forget_home (fst (step_ambient rnd cfg ptr k a)), snd (step_ambient rnd cfg ptr k a))"
  by (simp add: step_ambient_def forget_home_def Let_def)

lemma step_ambients_Cons:
  "step_ambients rnd cfg ptr k (a # as) =
     (fst (step_ambient rnd cfg ptr k a) # fst (step_ambients rnd cfg ptr (snd (step_ambient rnd cfg ptr k a)) as),
      snd (step_ambients rnd cfg ptr (snd (step_ambient rnd cfg ptr k a)) as))"
  by (simp split: prod.split)

lemma step_ambients_forget:
  "step_ambients rnd cfg ptr k (map forget_home as) =
     (map forget_home (fst (step_ambients rnd cfg ptr k as)), snd (step_ambients rnd cfg ptr k as))"
proof (induction as arbitrary: k)
  case Nil
  then show ?case by simp
next
  case (Cons a as)
  show ?case
    unfolding list.map step_ambients_Cons step_ambient_forget fst_conv snd_conv Cons.IH
    by simp
qed

lemma move_all_erase:
  "move_all rnd width height cfg m (erase_homes st) = erase_homes (move_all rnd width height cfg m st)"
  by (simp add: move_all_def erase_homes_def Let_def step_ambients_forget split: prod.split)

lemma tick_clock_erase:
  "tick_clock width height cfg rafTime (erase_homes st) = erase_homes (tick_clock width height cfg rafTime st)"
  by (simp add: tick_clock_def erase_homes_def update_waves_def frame_delta_def Let_def)

lemma draw_erase:
  "draw rnd width height cfg m rafTime (erase_homes st) = erase_homes (draw rnd width height cfg m rafTime st)"
  by (simp add: draw_def tick_clock_erase collide_erase move_all_erase)

lemma step_ambient_home:
  "baseX (fst (step_ambient rnd cfg ptr k a)) = baseX a"
  "baseY (fst (step_ambient rnd cfg ptr k a)) = baseY a"
  by (simp_all add: step_ambient_def Let_def)

lemma step_ambients_home:
  "map baseX (fst (step_ambients rnd cfg ptr k as)) = map baseX as"
  "map baseY (fst (step_ambients rnd cfg ptr k as)) = map baseY as"
  by (induction as arbitrary: k; simp only: step_ambients_Cons fst_conv list.map step_ambient_home; simp)+

lemma ambients_draw_home:
  "map baseX (ambientParticles (draw rnd width height cfg m rafTime st)) = map baseX (ambientParticles st)"
  "map baseY (ambientParticles (draw rnd width height cfg m rafTime st)) = map baseY (ambientParticles st)"
proof -
  let ?c = "collide (tick_clock width height cfg rafTime st)"
  have a: "ambientParticles (draw rnd width height cfg m rafTime st) =
      fst (step_ambients rnd cfg (pointer_of width height (zoom_of cfg (accumulatedTime ?c)) m)
        (snd (step_particles rnd cfg (accumulatedTime ?c) (waves ?c)
           (pointer_of width height (zoom_of cfg (accumulatedTime ?c)) m) (draws ?c) (particles ?c)))
        (ambientParticles ?c))"
    by (simp add: draw_def move_all_def Let_def split: prod.split)
  have hx: "map baseX (ambientParticles ?c) = map baseX (ambientParticles st)"
    using ambients_collide_frame [of baseX "tick_clock width height cfg rafTime st"]
    by (simp add: addPos_def addVel_def split: sum.split)
  have hy: "map baseY (ambientParticles ?c) = map baseY (ambientParticles st)"
    using ambients_collide_frame [of baseY "tick_clock width height cfg rafTime st"]
    by (simp add: addPos_def addVel_def split: sum.split)
  show "map baseX (ambientParticles (draw rnd width height cfg m rafTime st)) = map baseX (ambientParticles st)"
    unfolding a step_ambients_home by (rule hx)
  show "map baseY (ambientParticles (draw rnd width height cfg m rafTime st)) = map baseY (ambientParticles st)"
    unfolding a step_ambients_home by (rule hy)
qed

subsection \<open>What the force accumulator and the activation tracker read\<close>



lemma reveal_cong:
  assumes "isText q = isText p" and "activation q = activation p" and "dist_w q = dist_w p"
  shows "activation (reveal cfg fw q) = activation (reveal cfg fw p)"
  using assms by (simp add: reveal_def Let_def split: option.split)

lemma nth_particles_draw_waves:
  assumes "i < length (particles st)"
  shows "\<exists>time ptr k.
     particles (draw rnd width height cfg m rafTime st) ! i =
       fst (step_particle rnd cfg time (waves (tick_clock width height cfg rafTime st)) ptr k
              (particles (collide (tick_clock width height cfg rafTime st)) ! i))"
proof -
  let ?c = "collide (tick_clock width height cfg rafTime st)"
  have "i < length (particles ?c)"
    using assms by (simp add: length_particles_collide)
  from nth_step_particles [OF this] show ?thesis
    unfolding draw_def particles_move_all collide_other_fields by blast
qed

lemma activation_step_particle:
  "activation (fst (step_particle rnd cfg time ws ptr k p)) = activation (reveal cfg (firstWave ws) p)"
proof -
  obtain kx ky k' where f: "fold (wave_kick rnd cfg time p) ws (0, 0, k) = (kx, ky, k')"
    by (cases "fold (wave_kick rnd cfg time p) ws (0, 0, k)")
  show ?thesis
    unfolding step_particle_def f prod.case Let_def fst_conv
    by (rule reveal_cong) (simp_all add: integrate_static)
qed

lemma activation_draw:
  assumes "i < length (particles st)"
  shows "activation (particles (draw rnd width height cfg m rafTime st) ! i) =
     activation (reveal cfg (firstWave (waves (tick_clock width height cfg rafTime st))) (particles st ! i))"
proof -
  let ?t = "tick_clock width height cfg rafTime st"
  from nth_particles_draw_waves [OF assms] obtain time ptr k where
    d: "particles (draw rnd width height cfg m rafTime st) ! i =
       fst (step_particle rnd cfg time (waves ?t) ptr k (particles (collide ?t) ! i))"
    by blast
  have i: "i < length (particles ?t)" using assms by simp
  have "activation (reveal cfg (firstWave (waves ?t)) (particles (collide ?t) ! i))
      = activation (reveal cfg (firstWave (waves ?t)) (particles ?t ! i))"
    using nth_particles_collide [of isText, OF the_particle_static(5,6) i]
      nth_particles_collide [of activation, OF the_particle_static(7,8) i]
      nth_particles_collide [of dist_w, OF the_particle_static(1,2) i]
    by (intro reveal_cong)
  then show ?thesis
    unfolding d activation_step_particle by simp
qed


subsection \<open>The spring alone\<close>

lemma wave_kick_disabled:
  assumes "radialKick cfg = 0" and "bounceProb cfg = 0" and "\<And>k. 0 \<le> rnd k"
  shows "\<exists>k'. wave_kick rnd cfg time p w (0, 0, k) = (0, 0, k')"
proof -
  have "\<not> rnd k < 0" using assms(3) [of k] by simp
  then show ?thesis
    by (simp add: wave_kick_def Let_def assms(1,2))
qed

lemma fold_wave_kick_disabled:
  assumes "radialKick cfg = 0" and "bounceProb cfg = 0" and "\<And>k. 0 \<le> rnd k"
  shows "\<exists>k'. fold (wave_kick rnd cfg time p) ws (0, 0, k) = (0, 0, k')"
proof (induction ws arbitrary: k)
  case Nil
  then show ?case by simp
next
  case (Cons w ws)
  from wave_kick_disabled [where rnd = rnd and cfg = cfg, OF assms] obtain k1 where
    "wave_kick rnd cfg time p w (0, 0, k) = (0, 0, k1)" by blast
  then show ?case using Cons [of k1] by simp
qed

lemma step_particle_disabled:
  assumes "radialKick cfg = 0" and "bounceProb cfg = 0" and "\<And>k. 0 \<le> rnd k"
    and "\<not> isMouseActive ptr"
  shows "fst (step_particle rnd cfg time ws ptr k p) = reveal cfg (firstWave ws) (integrate cfg 0 0 p)"
proof -
  from fold_wave_kick_disabled [where rnd = rnd and cfg = cfg, OF assms(1-3)] obtain k' where
    "fold (wave_kick rnd cfg time p) ws (0, 0, k) = (0, 0, k')" by blast
  then show ?thesis
    by (simp add: step_particle_def mouse_kick_inactive [OF assms(4)] Let_def)
qed

lemma step_particles_disabled:
  assumes "radialKick cfg = 0" and "bounceProb cfg = 0" and "\<And>k. 0 \<le> rnd k"
    and "\<not> isMouseActive ptr"
  shows "fst (step_particles rnd cfg time ws ptr k ps) = map (\<lambda>p. reveal cfg (firstWave ws) (integrate cfg 0 0 p)) ps"
  by (induction ps arbitrary: k)
     (simp_all only: fst_step_particles_Cons step_particle_disabled [where rnd = rnd and cfg = cfg, OF assms] list.map, simp)

lemma reveal_motion:
  "x (reveal cfg fw p) = x p" "y (reveal cfg fw p) = y p"
  "vx (reveal cfg fw p) = vx p" "vy (reveal cfg fw p) = vy p"
  "baseX (reveal cfg fw p) = baseX p" "baseY (reveal cfg fw p) = baseY p"
  "jitterX (reveal cfg fw p) = jitterX p" "jitterY (reveal cfg fw p) = jitterY p"
  "mass (reveal cfg fw p) = mass p" "friction (reveal cfg fw p) = friction p"
  by (simp_all add: reveal_def Let_def split: option.split)

lemma integrate_spring:
  "vx (integrate cfg 0 0 p) = (vx p + (baseX p + jitterX p - x p) * (returnStrength cfg / mass p)) * friction p"
  "vy (integrate cfg 0 0 p) = (vy p + (baseY p + jitterY p - y p) * (returnStrength cfg / mass p)) * friction p"
  "x (integrate cfg 0 0 p) = x p + vx (integrate cfg 0 0 p)"
  "y (integrate cfg 0 0 p) = y p + vy (integrate cfg 0 0 p)"
  "baseX (integrate cfg 0 0 p) = baseX p" "baseY (integrate cfg 0 0 p) = baseY p"
  "jitterX (integrate cfg 0 0 p) = jitterX p" "jitterY (integrate cfg 0 0 p) = jitterY p"
  "mass (integrate cfg 0 0 p) = mass p" "friction (integrate cfg 0 0 p) = friction p"
  by (simp_all add: integrate_def Let_def)

subsection \<open>A damped linear recurrence\<close>

lemma second_order_recurrence_tendsto_0:
  fixes s :: "nat \<Rightarrow> real"
  assumes rec: "\<And>n. s (Suc (Suc n)) = t * s (Suc n) - d * s n"
    and t: "\<bar>t\<bar> < 1 + d" and d: "d < 1"
  shows "s \<longlonglongrightarrow> 0"
proof -
  define V where "V n = (1 - d\<^sup>2) * ((s n)\<^sup>2 + (s (Suc n))\<^sup>2) - 2 * t * (1 - d) * s n * s (Suc n)" for n
  define u where "u n = (1 + d) * s n - t * s (Suc n)" for n
  have step: "V n - V (Suc n) = (1 - d)\<^sup>2 * (u n)\<^sup>2" for n
    unfolding V_def u_def rec by algebra
  have nonneg: "0 \<le> V n" for n
  proof -
    have "2 * \<bar>s n * s (Suc n)\<bar> \<le> (s n)\<^sup>2 + (s (Suc n))\<^sup>2"
      using sum_squares_bound [of "\<bar>s n\<bar>" "\<bar>s (Suc n)\<bar>"] by (simp add: abs_mult)
    then have "2 * t * (s n * s (Suc n)) \<le> \<bar>t\<bar> * ((s n)\<^sup>2 + (s (Suc n))\<^sup>2)"
    proof -
      assume a: "2 * \<bar>s n * s (Suc n)\<bar> \<le> (s n)\<^sup>2 + (s (Suc n))\<^sup>2"
      have "2 * t * (s n * s (Suc n)) \<le> \<bar>2 * t * (s n * s (Suc n))\<bar>" by (rule abs_ge_self)
      also have "\<dots> = \<bar>t\<bar> * (2 * \<bar>s n * s (Suc n)\<bar>)" by (simp add: abs_mult)
      also have "\<dots> \<le> \<bar>t\<bar> * ((s n)\<^sup>2 + (s (Suc n))\<^sup>2)"
        using a by (intro mult_left_mono) simp_all
      finally show ?thesis .
    qed
    then have "(1 + d) * ((s n)\<^sup>2 + (s (Suc n))\<^sup>2) - 2 * t * (s n * s (Suc n))
        \<ge> (1 + d - \<bar>t\<bar>) * ((s n)\<^sup>2 + (s (Suc n))\<^sup>2)"
      by (simp add: algebra_simps)
    moreover have "0 \<le> (1 + d - \<bar>t\<bar>) * ((s n)\<^sup>2 + (s (Suc n))\<^sup>2)"
      using t by (intro mult_nonneg_nonneg) simp_all
    ultimately have "0 \<le> (1 + d) * ((s n)\<^sup>2 + (s (Suc n))\<^sup>2) - 2 * t * (s n * s (Suc n))"
      by linarith
    then have "0 \<le> (1 - d) * ((1 + d) * ((s n)\<^sup>2 + (s (Suc n))\<^sup>2) - 2 * t * (s n * s (Suc n)))"
      using d by (intro mult_nonneg_nonneg) simp_all
    also have "\<dots> = V n" unfolding V_def by algebra
    finally show ?thesis .
  qed
  have "decseq V"
  proof (rule decseq_SucI)
    fix n
    have "0 \<le> (1 - d)\<^sup>2 * (u n)\<^sup>2" by simp
    then show "V (Suc n) \<le> V n" using step [of n] by linarith
  qed
  then obtain L where L: "V \<longlonglongrightarrow> L"
    using decseq_convergent [of V 0] nonneg by blast
  have "(\<lambda>n. V n - V (Suc n)) \<longlonglongrightarrow> L - L"
    by (intro tendsto_diff L LIMSEQ_Suc)
  then have "(\<lambda>n. (1 - d)\<^sup>2 * (u n)\<^sup>2) \<longlonglongrightarrow> 0"
    by (simp add: step)
  then have "(\<lambda>n. (1 / (1 - d)\<^sup>2) * ((1 - d)\<^sup>2 * (u n)\<^sup>2)) \<longlonglongrightarrow> 0"
    by (rule tendsto_mult_right_zero)
  then have "(\<lambda>n. (u n)\<^sup>2) \<longlonglongrightarrow> 0"
    using d by simp
  then have "(\<lambda>n. sqrt ((u n)\<^sup>2)) \<longlonglongrightarrow> sqrt 0"
    by (rule tendsto_real_sqrt)
  then have "(\<lambda>n. \<bar>u n\<bar>) \<longlonglongrightarrow> 0" by simp
  then have u0: "u \<longlonglongrightarrow> 0" by (rule tendsto_rabs_zero_cancel)
  have "\<bar>t\<bar>\<^sup>2 < (1 + d)\<^sup>2"
    using t by (intro power_strict_mono) simp_all
  then have D: "(1 + d)\<^sup>2 - t\<^sup>2 \<noteq> 0" by simp
  have "((1 + d)\<^sup>2 - t\<^sup>2) * s n = (1 + d - t\<^sup>2) * u n + t * u (Suc n)" for n
    unfolding u_def rec by algebra
  then have s_eq: "s n = ((1 + d - t\<^sup>2) * u n + t * u (Suc n)) / ((1 + d)\<^sup>2 - t\<^sup>2)" for n
    using D by (simp add: field_simps)
  have "(\<lambda>n. ((1 + d - t\<^sup>2) * u n + t * u (Suc n)) / ((1 + d)\<^sup>2 - t\<^sup>2))
      \<longlonglongrightarrow> ((1 + d - t\<^sup>2) * 0 + t * 0) / ((1 + d)\<^sup>2 - t\<^sup>2)"
    by (intro tendsto_intros u0 LIMSEQ_Suc D)
  then show ?thesis
    by (simp add: s_eq [symmetric])
qed

text \<open>One axis of the spring: the error \<open>e\<close> to the target and the velocity \<open>v\<close>.\<close>

lemma spring_axis_tendsto_0:
  fixes e v :: "nat \<Rightarrow> real"
  assumes v: "\<And>n. v (Suc n) = (v n - e n * k) * f"
    and e: "\<And>n. e (Suc n) = e n + v (Suc n)"
    and f: "0 < f" "f < 1" and k: "0 < k" "f * k < 2 * (1 + f)"
  shows "e \<longlonglongrightarrow> 0" and "v \<longlonglongrightarrow> 0"
proof -
  have rec: "e (Suc (Suc n)) = (1 + f - f * k) * e (Suc n) - f * e n" for n
  proof -
    have "v (Suc n) = e (Suc n) - e n" using e [of n] by simp
    then have "v (Suc (Suc n)) = (e (Suc n) - e n - e (Suc n) * k) * f"
      using v [of "Suc n"] by simp
    then show ?thesis using e [of "Suc n"] by (simp add: algebra_simps)
  qed
  have "0 < f * k" using f k by simp
  then have t: "\<bar>1 + f - f * k\<bar> < 1 + f" using k(2) by (simp add: abs_less_iff)
  show e0: "e \<longlonglongrightarrow> 0"
    by (rule second_order_recurrence_tendsto_0 [where s = e and t = "1 + f - f * k" and d = f, OF rec t f(2)])
  have "(\<lambda>n. e (Suc n) - e n) \<longlonglongrightarrow> 0 - 0"
    by (intro tendsto_diff LIMSEQ_Suc e0)
  moreover have "e (Suc n) - e n = v (Suc n)" for n using e [of n] by simp
  ultimately have "(\<lambda>n. v (Suc n)) \<longlonglongrightarrow> 0" by simp
  then show "v \<longlonglongrightarrow> 0" by (simp only: filterlim_sequentially_Suc)
qed

subsection \<open>Four frames of the spring, evaluated\<close>

lemma resolve_spring_pair:
  assumes "0 \<le> e" and "e < 6"
  shows "resolve_collisions [Inl (spring_particle\<lparr>x := e, vx := v\<rparr>), Inr sample_ambient]
       = [Inl (spring_particle\<lparr>x := e, vx := v\<rparr>), Inr sample_ambient]"
proof -
  have c: "cell_of (Inl (spring_particle\<lparr>x := e, vx := v\<rparr>)) = (0, 0)"
    using assms by (simp add: cell_of_def getX_def getY_def CELL_SIZE_def spring_particle_def
        sample_particle_def floor_eq_iff)
  have d: "cell_of (Inr sample_ambient) = (16, 16)"
    by (simp add: cell_of_def getX_def getY_def CELL_SIZE_def sample_ambient_def)
  have g: "build_grid [Inl (spring_particle\<lparr>x := e, vx := v\<rparr>), Inr sample_ambient]
      = [(0, 0) \<mapsto> [0], (16, 16) \<mapsto> [1]]"
    by (simp add: build_grid_def grid_add_def c d Let_def upt_rec)
  show ?thesis
    unfolding resolve_collisions_def g
    by (simp add: upt_rec collide_particle_def neighbour_offsets_def c d Let_def collide_cell_def)
qed

lemma step_ambients_sample:
  assumes "\<not> isMouseActive ptr"
  shows "fst (step_ambients half_rnd cfg ptr k [sample_ambient]) = [sample_ambient]"
  using assms by (simp add: step_ambient_def half_rnd_def sample_ambient_def Let_def)

lemma spring_frame:
  assumes "particles st = [spring_particle\<lparr>x := e, vx := v\<rparr>]"
    and "ambientParticles st = [sample_ambient]" and "0 \<le> e" and "e < 6"
  shows "particles (draw half_rnd 800 600 spring_config pointer_at_origin t st)
           = [spring_particle\<lparr>x := e + (v - e / 6) * (24 / 25), vx := (v - e / 6) * (24 / 25)\<rparr>]"
    and "ambientParticles (draw half_rnd 800 600 spring_config pointer_at_origin t st) = [sample_ambient]"
proof -
  let ?c = "collide (tick_clock 800 600 spring_config t st)"
  have pc: "particles ?c = [spring_particle\<lparr>x := e, vx := v\<rparr>]"
    and ac: "ambientParticles ?c = [sample_ambient]"
    by (simp_all add: collide_def Let_def assms(1,2) resolve_spring_pair [OF assms(3,4)])
  let ?ptr = "pointer_of 800 600 (zoom_of spring_config (accumulatedTime ?c)) pointer_at_origin"
  have i: "\<not> isMouseActive ?ptr" by (simp add: pointer_of_def pointer_at_origin_def)
  have off: "radialKick spring_config = 0" "bounceProb spring_config = 0"
    by (simp_all add: spring_config_def)
  have r: "0 \<le> half_rnd k" for k by (simp add: half_rnd_def)
  have "particles (draw half_rnd 800 600 spring_config pointer_at_origin t st) =
      map (\<lambda>p. reveal spring_config (firstWave (waves ?c)) (integrate spring_config 0 0 p)) (particles ?c)"
    unfolding draw_def particles_move_all
    by (rule step_particles_disabled [where rnd = half_rnd and cfg = spring_config, OF off r i])
  then show "particles (draw half_rnd 800 600 spring_config pointer_at_origin t st)
           = [spring_particle\<lparr>x := e + (v - e / 6) * (24 / 25), vx := (v - e / 6) * (24 / 25)\<rparr>]"
    unfolding pc
    by (simp add: reveal_def integrate_def spring_config_def defaultConfig_def spring_particle_def
        sample_particle_def Let_def)
  have "ambientParticles (draw half_rnd 800 600 spring_config pointer_at_origin t st) =
      fst (step_ambients half_rnd spring_config ?ptr
        (snd (step_particles half_rnd spring_config (accumulatedTime ?c) (waves ?c) ?ptr (draws ?c) (particles ?c)))
        (ambientParticles ?c))"
    by (simp add: draw_def move_all_def Let_def split: prod.split)
  then show "ambientParticles (draw half_rnd 800 600 spring_config pointer_at_origin t st) = [sample_ambient]"
    unfolding ac by (simp only: step_ambients_sample [OF i])
qed

lemma spring_frames_unfold:
  "spring_frames 3 = [(spring_config, pointer_at_origin, 1032), (spring_config, pointer_at_origin, 1048),
     (spring_config, pointer_at_origin, 1064)]"
  "spring_frames 4 = spring_frames 3 @ [(spring_config, pointer_at_origin, 1080)]"
  by (simp_all add: spring_frames_def upt_rec)

lemma spring_run_3:
  "particles (run half_rnd 800 600 (spring_frames 3) spring_state)
     = [spring_particle\<lparr>x := 117 / 625, vx := - (228 / 625)\<rparr>]"
  "ambientParticles (run half_rnd 800 600 (spring_frames 3) spring_state) = [sample_ambient]"
proof -
  let ?s1 = "draw half_rnd 800 600 spring_config pointer_at_origin 1032 spring_state"
  let ?s2 = "draw half_rnd 800 600 spring_config pointer_at_origin 1048 ?s1"
  let ?s3 = "draw half_rnd 800 600 spring_config pointer_at_origin 1064 ?s2"
  have p0: "particles spring_state = [spring_particle\<lparr>x := 1, vx := 0\<rparr>]"
    by (simp add: spring_state_def spring_particle_def sample_particle_def)
  have a0: "ambientParticles spring_state = [sample_ambient]"
    by (simp add: spring_state_def sample_state_def)
  have p1: "particles ?s1 = [spring_particle\<lparr>x := 21 / 25, vx := - (4 / 25)\<rparr>]"
    using spring_frame(1) [OF p0 a0, of 1032] by simp
  have a1: "ambientParticles ?s1 = [sample_ambient]"
    using spring_frame(2) [OF p0 a0, of 1032] by simp
  have p2: "particles ?s2 = [spring_particle\<lparr>x := 69 / 125, vx := - (36 / 125)\<rparr>]"
    using spring_frame(1) [OF p1 a1, of 1048] by simp
  have a2: "ambientParticles ?s2 = [sample_ambient]"
    using spring_frame(2) [OF p1 a1, of 1048] by simp
  have p3: "particles ?s3 = [spring_particle\<lparr>x := 117 / 625, vx := - (228 / 625)\<rparr>]"
    using spring_frame(1) [OF p2 a2, of 1064] by simp
  have a3: "ambientParticles ?s3 = [sample_ambient]"
    using spring_frame(2) [OF p2 a2, of 1064] by simp
  have r: "run half_rnd 800 600 (spring_frames 3) spring_state = ?s3"
    by (simp add: spring_frames_unfold)
  show "particles (run half_rnd 800 600 (spring_frames 3) spring_state)
     = [spring_particle\<lparr>x := 117 / 625, vx := - (228 / 625)\<rparr>]"
    unfolding r by (rule p3)
  show "ambientParticles (run half_rnd 800 600 (spring_frames 3) spring_state) = [sample_ambient]"
    unfolding r by (rule a3)
qed

lemma spring_run_4:
  "particles (run half_rnd 800 600 (spring_frames 4) spring_state)
     = [spring_particle\<lparr>x := - (603 / 3125), vx := - (1188 / 3125)\<rparr>]"
proof -
  have "run half_rnd 800 600 (spring_frames 4) spring_state =
      draw half_rnd 800 600 spring_config pointer_at_origin 1080
        (run half_rnd 800 600 (spring_frames 3) spring_state)"
    by (simp add: spring_frames_unfold(2) run_append)
  then show ?thesis
    using spring_frame(1) [OF spring_run_3, of 1080] by simp
qed

subsection \<open>The state the spawner hands to the first frame\<close>

lemma activation_createMask:
  "list_all (\<lambda>p. activation p \<le> 1) (particles (createMask rnd width height word imgData cfg))"
proof (cases "width = 0 \<or> height = 0")
  case True
  then show ?thesis by (simp add: createMask_def initial_state_def)
next
  case False
  then show ?thesis
    by (simp add: createMask_nonempty(1) spawn_cells_def fold_spawn_cell_particles_inv)
qed

lemma waves_ordered_createMask:
  "waves_ordered (waves (createMask rnd width height word imgData cfg))"
proof (cases "width = 0 \<or> height = 0")
  case True
  then show ?thesis by (simp add: createMask_def initial_state_def waves_ordered_def)
next
  case False
  then show ?thesis
    by (simp add: createMask_nonempty(3) waves_ordered_def)
qed

lemma waves_ordered_run:
  assumes "waves_ordered (waves st)"
    and "\<forall>(cfg, m, rafTime) \<in> set frames. 0 \<le> waveSpeed cfg"
    and "sorted (lastRafTime st # map (\<lambda>(cfg, m, rafTime). rafTime) frames)"
  shows "waves_ordered (waves (run rnd width height frames st))"
  using assms
proof (induction frames arbitrary: st)
  case Nil
  then show ?case by simp
next
  case (Cons fr frames)
  obtain cfg m rafTime where fr: "fr = (cfg, m, rafTime)" by (cases fr)
  have d: "0 \<le> frame_delta rafTime st"
    using Cons.prems(3) by (simp add: frame_delta_def fr)
  have s: "0 \<le> waveSpeed cfg" using Cons.prems(2) by (simp add: fr)
  have 1: "waves_ordered (waves (draw rnd width height cfg m rafTime st))"
    using d s by (intro waves_ordered_draw Cons.prems(1)) simp
  have l: "lastRafTime (draw rnd width height cfg m rafTime st) = rafTime"
    by (simp add: draw_def move_all_other_fields collide_other_fields tick_clock_def
        update_waves_def Let_def)
  have 3: "sorted (lastRafTime (draw rnd width height cfg m rafTime st) # map (\<lambda>(cfg, m, rafTime). rafTime) frames)"
    using Cons.prems(3) by (simp add: l fr)
  show ?case
    using Cons.IH [OF 1 _ 3] Cons.prems(2) by (simp add: fr)
qed

subsection \<open>A frame of the intro on the sample state\<close>

lemma intro_frame_first_wave:
  "firstWave (waves (tick_clock 800 600 intro_config 1032 sample_state)) = Some \<lparr>wave_radius = 3048 / 25\<rparr>"
  by (simp add: tick_clock_def update_waves_def remove_dead_waves_def maxDist_def hypot_800_600
      advance_waves_def frame_delta_def sample_state_def intro_config_def defaultConfig_def
      firstWave_def Let_def)

lemma intro_frame_reveal:
  "activation (reveal intro_config (Some \<lparr>wave_radius = 3048 / 25\<rparr>) sample_particle) = 137 / 875"
  "activation (reveal intro_config (Some \<lparr>wave_radius = 3048 / 25\<rparr>) (particles sample_state ! 0)) = 137 / 875"
  by (simp_all add: reveal_def intro_config_def defaultConfig_def sample_state_def sample_particle_def
      revealWidth_def Let_def)

section \<open>The claims\<close>

text \<open>
  C1, as stated, fails: a paused frame still runs the collision pass, the force and
  integration loop and the dust loop. On the sample state a paused frame moves the text
  particle from \<open>x = 1\<close> to \<open>x = 481/500\<close> and changes its velocity from 0 to \<open>-19/500\<close>
  (the spring pulls it towards its home).
\<close>

theorem paused_frame_changes_particles:
  "paused paused_config \<and>
   x (particles sample_state ! 0) = 1 \<and>
   x (particles (draw half_rnd 800 600 paused_config pointer_at_origin 1032 sample_state) ! 0) = 481 / 500 \<and>
   vx (particles sample_state ! 0) = 0 \<and>
   vx (particles (draw half_rnd 800 600 paused_config pointer_at_origin 1032 sample_state) ! 0) = - (19 / 500)"
  unfolding paused_sample_frame
  by (simp add: paused_config_def sample_state_def sample_particle_def)

text \<open>
  C1, amended. When the configuration's paused flag is true, a frame leaves the wave list
  (hence every wave radius), the accumulated simulation time and the time since the last
  wave as they were.
\<close>

theorem paused_freezes_waves_and_time:
  assumes "paused cfg"
  shows "waves (draw rnd width height cfg m rafTime st) = waves st
       \<and> accumulatedTime (draw rnd width height cfg m rafTime st) = accumulatedTime st
       \<and> timeSinceLastWave (draw rnd width height cfg m rafTime st) = timeSinceLastWave st"
  unfolding draw_def tick_clock_paused [OF assms]
  by (simp add: move_all_other_fields collide_other_fields)

theorem paused_freezes_waves_and_time_witness:
  "paused paused_config
   \<and> waves (draw half_rnd 800 600 paused_config pointer_at_origin 1032 sample_state)
       = [\<lparr>wave_radius = 120\<rparr>]
   \<and> accumulatedTime (draw half_rnd 800 600 paused_config pointer_at_origin 1032 sample_state) = 1000
   \<and> timeSinceLastWave (draw half_rnd 800 600 paused_config pointer_at_origin 1032 sample_state) = 1000"
proof -
  have p: "paused paused_config" by (simp add: paused_config_def intro_config_def)
  have s: "waves sample_state = [\<lparr>wave_radius = 120\<rparr>]"
    "accumulatedTime sample_state = 1000" "timeSinceLastWave sample_state = 1000"
    by (simp_all add: sample_state_def)
  show ?thesis
    using p paused_freezes_waves_and_time [OF p, of half_rnd 800 600 pointer_at_origin 1032 sample_state]
    by (simp only: s)
qed

text \<open>
  C2. For a text particle (whose activation is at most 1, as it is from the spawner on),
  the activation after frame \<open>n + 1\<close> of a run is never less than after frame \<open>n\<close>, and once
  it is 1 it is 1 after every later frame, whatever configurations (the intro-skip flag
  included), pointer samples and timestamps the frames of the run have.
\<close>

theorem activation_never_regresses:
  assumes "i < length (particles st)" and "isText (particles st ! i)"
    and "activation (particles st ! i) \<le> 1"
  shows "activation (particles (run rnd width height fs st) ! i)
           \<le> activation (particles (run rnd width height (fs @ [(cfg, m, rafTime)]) st) ! i)
       \<and> (activation (particles (run rnd width height fs st) ! i) = 1 \<longrightarrow>
            activation (particles (run rnd width height (fs @ gs) st) ! i) = 1)"
proof -
  let ?s = "run rnd width height fs st"
  have 1: "i < length (particles ?s)" using assms(1) by (simp add: length_particles_run)
  have 2: "activation (particles ?s ! i) \<le> 1" using run_activation [OF assms(1,3)] by simp
  have a: "activation (particles ?s ! i) \<le> activation (particles (run rnd width height [(cfg, m, rafTime)] ?s) ! i)"
    using run_activation [OF 1 2] by blast
  have b: "activation (particles ?s ! i) \<le> activation (particles (run rnd width height gs ?s) ! i)
      \<and> activation (particles (run rnd width height gs ?s) ! i) \<le> 1"
    using run_activation [OF 1 2] by blast
  show ?thesis using a b by (auto simp: run_append)
qed

theorem activation_never_regresses_witness:
  "0 < length (particles sample_state) \<and> isText (particles sample_state ! 0)
   \<and> activation (particles sample_state ! 0) \<le> 1
   \<and> activation (particles (run half_rnd 800 600 [] sample_state) ! 0) = 1 / 7
   \<and> activation (particles (run half_rnd 800 600 ([] @ [(intro_config, pointer_at_origin, 1032)]) sample_state) ! 0)
        = 137 / 875
   \<and> activation (particles (run half_rnd 800 600 [] sample_state) ! 0)
        \<le> activation (particles (run half_rnd 800 600 ([] @ [(intro_config, pointer_at_origin, 1032)]) sample_state) ! 0)"
proof -
  have a: "0 < length (particles sample_state)" by (simp add: sample_state_def)
  have b: "isText (particles sample_state ! 0)" by (simp add: sample_state_def sample_particle_def)
  have c: "activation (particles sample_state ! 0) \<le> 1"
    by (simp add: sample_state_def sample_particle_def)
  have d: "activation (particles (run half_rnd 800 600 [] sample_state) ! 0) = 1 / 7"
    by (simp add: sample_state_def sample_particle_def)
  have e: "activation (particles (run half_rnd 800 600 ([] @ [(intro_config, pointer_at_origin, 1032)]) sample_state) ! 0)
        = 137 / 875"
    by (simp add: activation_draw [OF a] intro_frame_first_wave intro_frame_reveal)
  have "activation (particles (run half_rnd 800 600 [] sample_state) ! 0)
        \<le> activation (particles (run half_rnd 800 600 ([] @ [(intro_config, pointer_at_origin, 1032)]) sample_state) ! 0)"
    using activation_never_regresses [OF a b c, of half_rnd 800 600 "[]" intro_config pointer_at_origin 1032 "[]"]
    by blast
  then show ?thesis using a b c d e by blast
qed

text \<open>
  C3, evaluated on the code. The claim gives a background particle the radius 1.0
  (\<open>BG_RADIUS\<close>); the spawner pushes every mask particle with \<open>TEXT_RADIUS\<close>. On a blank
  2 by 2 canvas, with every draw 1/10, the one cell is kept as a background particle
  (\<open>isText\<close> false), and its radius is 1.1.
\<close>

theorem background_particle_gets_text_radius:
  "map (\<lambda>p. (isText p, radius p)) (particles (createMask tenth_rnd 2 2 ''A'' blank_2x2 defaultConfig))
     = [(False, 11 / 10)]
   \<and> BG_RADIUS = 1"
proof -
  have "particles (createMask tenth_rnd 2 2 ''A'' blank_2x2 defaultConfig)
      = fst (spawn_cells tenth_rnd 2 2 ''A'' blank_2x2 defaultConfig)"
    by (rule createMask_nonempty(1)) simp_all
  also have "\<dots> = [new_particle tenth_rnd False 0 0 (textCenterX blank_2x2 2 2) (textCenterY blank_2x2 2 2)
      (waveOriginX ''A'' blank_2x2 2 2) (textCenterY blank_2x2 2 2) 1]"
    by (simp add: spawn_cells_def cells_2x2 spawn_cell_def blank_not_text Let_def tenth_rnd_def
        BACKGROUND_KEEP_PROB_def approxAmbientTarget_def defaultConfig_def)
  finally show ?thesis
    by (simp add: TEXT_RADIUS_def BG_RADIUS_def)
qed

text \<open>
  C4. On an unpaused frame with a positive delta (and a positive wave speed, in a state
  whose wave array is ordered as every run keeps it), each live wave's radius grows by
  \<open>delta * waveSpeed\<close>, strictly; the waves kept are exactly the advanced waves whose
  radius does not exceed \<open>hypot width height + 200\<close>, followed by at most one new wave of
  radius 0; and the wave array stays ordered.
\<close>

theorem wave_lifecycle:
  assumes "\<not> paused cfg" and "0 < frame_delta rafTime st" and "0 < waveSpeed cfg"
    and "waves_ordered (waves st)"
  shows "(\<forall>i < length (waves st).
            wave_radius (advance_waves (frame_delta rafTime st) (waveSpeed cfg) (waves st) ! i)
              = wave_radius (waves st ! i) + frame_delta rafTime st * waveSpeed cfg
          \<and> wave_radius (waves st ! i)
              < wave_radius (advance_waves (frame_delta rafTime st) (waveSpeed cfg) (waves st) ! i))
       \<and> (waves (draw rnd width height cfg m rafTime st) =
             filter (\<lambda>w. \<not> wave_radius w > hypot width height + 200)
               (advance_waves (frame_delta rafTime st) (waveSpeed cfg) (waves st))
          \<or> waves (draw rnd width height cfg m rafTime st) =
             filter (\<lambda>w. \<not> wave_radius w > hypot width height + 200)
               (advance_waves (frame_delta rafTime st) (waveSpeed cfg) (waves st)) @ [\<lparr>wave_radius = 0\<rparr>])
       \<and> waves_ordered (waves (draw rnd width height cfg m rafTime st))"
proof -
  let ?d = "frame_delta rafTime st"
  let ?adv = "advance_waves ?d (waveSpeed cfg) (waves st)"
  have pos: "0 < ?d * waveSpeed cfg" using assms(2,3) by simp
  have 1: "\<forall>i < length (waves st).
      wave_radius (?adv ! i) = wave_radius (waves st ! i) + ?d * waveSpeed cfg
      \<and> wave_radius (waves st ! i) < wave_radius (?adv ! i)"
    using pos by (simp add: nth_advance_waves)
  have "sorted_wrt (\<lambda>a b. wave_radius b \<le> wave_radius a) ?adv"
    using assms(4) by (simp add: waves_ordered_def sorted_advance_waves)
  then have r: "remove_dead_waves width height ?adv =
      filter (\<lambda>w. \<not> wave_radius w > hypot width height + 200) ?adv"
    by (simp add: remove_dead_waves_def maxDist_def dropWhile_dead_eq_filter)
  have 2: "waves (draw rnd width height cfg m rafTime st) =
             filter (\<lambda>w. \<not> wave_radius w > hypot width height + 200) ?adv
          \<or> waves (draw rnd width height cfg m rafTime st) =
             filter (\<lambda>w. \<not> wave_radius w > hypot width height + 200) ?adv @ [\<lparr>wave_radius = 0\<rparr>]"
    using waves_update_waves [of width height cfg ?d st]
    by (simp only: waves_draw_unpaused [OF assms(1)] r)
  have 3: "waves_ordered (waves (draw rnd width height cfg m rafTime st))"
    using pos by (intro waves_ordered_draw assms(4)) simp
  from 1 2 3 show ?thesis by blast
qed

theorem wave_lifecycle_witness:
  "\<not> paused slow_config \<and> 0 < frame_delta 10032 late_state \<and> 0 < waveSpeed slow_config
   \<and> waves_ordered (waves late_state)
   \<and> map wave_radius (waves late_state) = [1200, 840, 480, 120]
   \<and> wave_radius (waves late_state ! 0)
        < wave_radius (advance_waves (frame_delta 10032 late_state) (waveSpeed slow_config) (waves late_state) ! 0)
   \<and> map wave_radius (advance_waves (frame_delta 10032 late_state) (waveSpeed slow_config) (waves late_state))
        = [30048 / 25, 21048 / 25, 12048 / 25, 3048 / 25]
   \<and> hypot 800 600 + 200 = 1200
   \<and> map wave_radius (waves (draw half_rnd 800 600 slow_config pointer_at_origin 10032 late_state))
        = [21048 / 25, 12048 / 25, 3048 / 25]"
proof -
  have a: "\<not> paused slow_config" by (simp add: slow_config_def intro_config_def defaultConfig_def)
  have b: "0 < frame_delta 10032 late_state"
    by (simp add: frame_delta_def late_state_def sample_state_def)
  have c: "0 < waveSpeed slow_config" by (simp add: slow_config_def intro_config_def defaultConfig_def)
  have d: "waves_ordered (waves late_state)"
    by (simp add: waves_ordered_def late_state_def sample_state_def)
  have e: "0 < length (waves late_state)" by (simp add: late_state_def sample_state_def)
  have f: "wave_radius (waves late_state ! 0)
        < wave_radius (advance_waves (frame_delta 10032 late_state) (waveSpeed slow_config) (waves late_state) ! 0)"
    using wave_lifecycle [OF a b c d, of half_rnd 800 600 pointer_at_origin] e by blast
  have g: "map wave_radius (advance_waves (frame_delta 10032 late_state) (waveSpeed slow_config) (waves late_state))
        = [30048 / 25, 21048 / 25, 12048 / 25, 3048 / 25]"
    by (simp add: advance_waves_def frame_delta_def late_state_def sample_state_def slow_config_def
        intro_config_def defaultConfig_def)
  have h: "hypot 800 600 + 200 = 1200" by (simp add: hypot_800_600)
  have i: "map wave_radius (waves (draw half_rnd 800 600 slow_config pointer_at_origin 10032 late_state))
        = [21048 / 25, 12048 / 25, 3048 / 25]"
    unfolding waves_draw_unpaused [OF a]
    by (simp add: update_waves_def remove_dead_waves_def maxDist_def hypot_800_600 advance_waves_def
        frame_delta_def late_state_def sample_state_def slow_config_def intro_config_def
        defaultConfig_def Let_def)
  show ?thesis
    using a b c d f g h i by (simp add: late_state_def sample_state_def)
qed

text \<open>
  C5. When the pointer sample has \<^verbatim>\<open>active = false\<close>, the state a frame produces does not
  depend on the pointer's coordinates: two pointer samples that are both inactive give the
  same state (every position and velocity included), all other inputs and the random
  draws being equal.
\<close>

theorem inactive_pointer_position_irrelevant:
  assumes "\<not> active m1" and "\<not> active m2"
  shows "draw rnd width height cfg m1 rafTime st = draw rnd width height cfg m2 rafTime st"
  unfolding draw_def by (rule move_all_inactive [OF assms])

theorem inactive_pointer_position_irrelevant_witness:
  "\<not> active pointer_at_origin \<and> \<not> active pointer_far_away \<and>
   draw half_rnd 800 600 defaultConfig pointer_at_origin 1032 sample_state =
   draw half_rnd 800 600 defaultConfig pointer_far_away 1032 sample_state"
proof -
  have a: "\<not> active pointer_at_origin" by (simp add: pointer_at_origin_def)
  have b: "\<not> active pointer_far_away" by (simp add: pointer_far_away_def)
  show ?thesis
    using a b inactive_pointer_position_irrelevant [OF a b, of half_rnd 800 600 defaultConfig 1032 sample_state]
    by simp
qed

text \<open>
  C6, as stated, fails: the spring with friction is a damped oscillator, and the distance
  to the target does not decrease at every tick. With wave kick, bounce and pointer
  repulsion off, a text particle of mass 0.6 and friction 0.96 released at rest one pixel
  from its home, under return strength 0.1, is 0.1872 px from the home after three
  frames and, having passed it, 0.19296 px after four.
\<close>

theorem spring_distance_not_monotone:
  "radialKick spring_config = 0 \<and> bounceProb spring_config = 0 \<and> repulsionStrength spring_config = 0
   \<and> \<not> active pointer_at_origin \<and> returnStrength spring_config = 1 / 10
   \<and> mass spring_particle = 6 / 10 \<and> friction spring_particle = 24 / 25
   \<and> baseX spring_particle + jitterX spring_particle = 0
   \<and> baseY spring_particle + jitterY spring_particle = 0
   \<and> particles spring_state = [spring_particle]
   \<and> x (particles (run half_rnd 800 600 (spring_frames 3) spring_state) ! 0) = 117 / 625
   \<and> y (particles (run half_rnd 800 600 (spring_frames 3) spring_state) ! 0) = 0
   \<and> x (particles (run half_rnd 800 600 (spring_frames 4) spring_state) ! 0) = - (603 / 3125)
   \<and> y (particles (run half_rnd 800 600 (spring_frames 4) spring_state) ! 0) = 0
   \<and> \<bar>(117::real) / 625\<bar> < \<bar>- (603 / 3125)\<bar>"
  unfolding spring_run_3 spring_run_4
  by (simp add: spring_config_def defaultConfig_def pointer_at_origin_def spring_particle_def
      sample_particle_def spring_state_def)

text \<open>
  C6, amended. With wave kick, stochastic bounce and pointer repulsion disabled, a return
  strength above 0, mass above 0, friction strictly between 0 and 1, and
  \<open>friction * returnStrength / mass < 2 * (1 + friction)\<close>, a mask particle that the
  collision pass does not move (its record after each frame is the particle loop's
  update of its record before) converges to home-plus-jitter, and its velocity to zero,
  as the number of ticks grows. Nothing is said about the distance decreasing at every
  tick or about a finite number of ticks.
\<close>

theorem spring_return_converges:
  assumes step: "\<And>n. \<exists>time ws ptr k. \<not> isMouseActive ptr \<and>
                    P (Suc n) = fst (step_particle rnd cfg time ws ptr k (P n))"
    and off: "radialKick cfg = 0" "bounceProb cfg = 0"
    and rnd: "\<And>k. 0 \<le> rnd k"
    and rs: "0 < returnStrength cfg"
    and m: "0 < mass (P 0)"
    and f: "0 < friction (P 0)" "friction (P 0) < 1"
    and st: "friction (P 0) * (returnStrength cfg / mass (P 0)) < 2 * (1 + friction (P 0))"
  shows "(\<lambda>n. x (P n)) \<longlonglongrightarrow> baseX (P 0) + jitterX (P 0)
       \<and> (\<lambda>n. y (P n)) \<longlonglongrightarrow> baseY (P 0) + jitterY (P 0)
       \<and> (\<lambda>n. vx (P n)) \<longlonglongrightarrow> 0
       \<and> (\<lambda>n. vy (P n)) \<longlonglongrightarrow> 0"
proof -
  have S: "\<exists>fw. P (Suc n) = reveal cfg fw (integrate cfg 0 0 (P n))" for n
  proof -
    from step [of n] obtain time ws ptr k where
      "\<not> isMouseActive ptr" "P (Suc n) = fst (step_particle rnd cfg time ws ptr k (P n))"
      by blast
    then show ?thesis
      using step_particle_disabled [where rnd = rnd and cfg = cfg, OF off rnd] by metis
  qed
  have static: "baseX (P n) = baseX (P 0) \<and> baseY (P n) = baseY (P 0)
      \<and> jitterX (P n) = jitterX (P 0) \<and> jitterY (P n) = jitterY (P 0)
      \<and> mass (P n) = mass (P 0) \<and> friction (P n) = friction (P 0)" for n
  proof (induction n)
    case 0
    show ?case by simp
  next
    case (Suc n)
    from S [of n] obtain fw where "P (Suc n) = reveal cfg fw (integrate cfg 0 0 (P n))" by blast
    then show ?case using Suc by (simp add: reveal_motion integrate_spring)
  qed
  define kk where "kk = returnStrength cfg / mass (P 0)"
  define ff where "ff = friction (P 0)"
  have kk: "0 < kk" using rs m by (simp add: kk_def)
  have vX: "vx (P (Suc n)) = (vx (P n) - (x (P n) - (baseX (P 0) + jitterX (P 0))) * kk) * ff" for n
  proof -
    from S [of n] obtain fw where "P (Suc n) = reveal cfg fw (integrate cfg 0 0 (P n))" by blast
    then show ?thesis
      using static [of n] by (simp add: reveal_motion integrate_spring kk_def ff_def algebra_simps)
  qed
  have eX: "x (P (Suc n)) - (baseX (P 0) + jitterX (P 0))
      = (x (P n) - (baseX (P 0) + jitterX (P 0))) + vx (P (Suc n))" for n
  proof -
    from S [of n] obtain fw where "P (Suc n) = reveal cfg fw (integrate cfg 0 0 (P n))" by blast
    then show ?thesis by (simp add: reveal_motion integrate_spring)
  qed
  have vY: "vy (P (Suc n)) = (vy (P n) - (y (P n) - (baseY (P 0) + jitterY (P 0))) * kk) * ff" for n
  proof -
    from S [of n] obtain fw where "P (Suc n) = reveal cfg fw (integrate cfg 0 0 (P n))" by blast
    then show ?thesis
      using static [of n] by (simp add: reveal_motion integrate_spring kk_def ff_def algebra_simps)
  qed
  have eY: "y (P (Suc n)) - (baseY (P 0) + jitterY (P 0))
      = (y (P n) - (baseY (P 0) + jitterY (P 0))) + vy (P (Suc n))" for n
  proof -
    from S [of n] obtain fw where "P (Suc n) = reveal cfg fw (integrate cfg 0 0 (P n))" by blast
    then show ?thesis by (simp add: reveal_motion integrate_spring)
  qed
  have fk: "ff * kk < 2 * (1 + ff)" using st by (simp add: kk_def ff_def)
  have ff: "0 < ff" "ff < 1" using f by (simp_all add: ff_def)
  note X = spring_axis_tendsto_0 [where e = "\<lambda>n. x (P n) - (baseX (P 0) + jitterX (P 0))"
      and v = "\<lambda>n. vx (P n)" and k = kk and f = ff, OF vX eX ff kk fk]
  note Y = spring_axis_tendsto_0 [where e = "\<lambda>n. y (P n) - (baseY (P 0) + jitterY (P 0))"
      and v = "\<lambda>n. vy (P n)" and k = kk and f = ff, OF vY eY ff kk fk]
  have "(\<lambda>n. x (P n)) \<longlonglongrightarrow> baseX (P 0) + jitterX (P 0)"
    using X(1) by (simp only: LIM_zero_iff)
  moreover have "(\<lambda>n. y (P n)) \<longlonglongrightarrow> baseY (P 0) + jitterY (P 0)"
    using Y(1) by (simp only: LIM_zero_iff)
  ultimately show ?thesis using X(2) Y(2) by blast
qed

theorem spring_return_converges_witness:
  "(\<forall>n. \<exists>time ws ptr k. \<not> isMouseActive ptr \<and>
       spring_trajectory (Suc n) = fst (step_particle half_rnd spring_config time ws ptr k (spring_trajectory n)))
   \<and> radialKick spring_config = 0 \<and> bounceProb spring_config = 0 \<and> (\<forall>k. 0 \<le> half_rnd k)
   \<and> 0 < returnStrength spring_config \<and> 0 < mass (spring_trajectory 0)
   \<and> 0 < friction (spring_trajectory 0) \<and> friction (spring_trajectory 0) < 1
   \<and> friction (spring_trajectory 0) * (returnStrength spring_config / mass (spring_trajectory 0))
        < 2 * (1 + friction (spring_trajectory 0))
   \<and> x (spring_trajectory 0) = 1
   \<and> baseX (spring_trajectory 0) + jitterX (spring_trajectory 0) = 0
   \<and> (\<lambda>n. x (spring_trajectory n)) \<longlonglongrightarrow> 0
   \<and> (\<lambda>n. vx (spring_trajectory n)) \<longlonglongrightarrow> 0"
proof -
  have s: "\<exists>time ws ptr k. \<not> isMouseActive ptr \<and>
       spring_trajectory (Suc n) = fst (step_particle half_rnd spring_config time ws ptr k (spring_trajectory n))" for n
  proof -
    have "\<not> isMouseActive inactive_pointer" by (simp add: inactive_pointer_def)
    moreover have "spring_trajectory (Suc n) =
        fst (step_particle half_rnd spring_config 0 [] inactive_pointer 0 (spring_trajectory n))"
      by (simp add: spring_trajectory_def)
    ultimately show ?thesis by blast
  qed
  have p0: "spring_trajectory 0 = spring_particle" by (simp add: spring_trajectory_def)
  have c: "radialKick spring_config = 0" "bounceProb spring_config = 0" "0 < returnStrength spring_config"
    "returnStrength spring_config = 1 / 10"
    by (simp_all add: spring_config_def defaultConfig_def)
  have r: "0 \<le> half_rnd k" for k by (simp add: half_rnd_def)
  have q: "mass spring_particle = 6 / 10" "friction spring_particle = 24 / 25"
    "x spring_particle = 1" "baseX spring_particle = 0" "jitterX spring_particle = 0"
    by (simp_all add: spring_particle_def sample_particle_def)
  have h: "0 < mass (spring_trajectory 0)" "0 < friction (spring_trajectory 0)"
    "friction (spring_trajectory 0) < 1"
    "friction (spring_trajectory 0) * (returnStrength spring_config / mass (spring_trajectory 0))
        < 2 * (1 + friction (spring_trajectory 0))"
    by (simp_all add: p0 q c(4))
  from spring_return_converges [where P = spring_trajectory and rnd = half_rnd and cfg = spring_config,
      OF s c(1,2) r c(3) h]
  have "(\<lambda>n. x (spring_trajectory n)) \<longlonglongrightarrow> 0" "(\<lambda>n. vx (spring_trajectory n)) \<longlonglongrightarrow> 0"
    by (simp_all add: p0 q)
  then show ?thesis
    using s c r h by (simp add: p0 q)
qed


text \<open>
  C7. For a colliding pair (two distinct entries of the combined array that pass the
  overlap test, with positive masses), the velocity exchange leaves both velocities as
  they are unless the two approach each other along the collision normal (\<open>v1n > v2n\<close>);
  it is skipped when they separate (\<open>v1n < v2n\<close>) and is without effect when \<open>v1n = v2n\<close>.
  When it is applied, each velocity changes along the normal by the change the 1-D
  elastic collision gives, scaled by the damping factor 0.85.
\<close>

theorem velocity_exchange_only_when_approaching:
  assumes "i < length ps" and "j < length ps" and "i \<noteq> j"
    and "overlapping (ps ! i) (ps ! j)"
    and "0 < getMass (ps ! i)" and "0 < getMass (ps ! j)"
  shows "COLLISION_DAMPING = 85 / 100 \<and>
    (let p1 = ps ! i; p2 = ps ! j;
         n = collision_normal p1 p2;
         v1n = normal_velocity n p1;
         v2n = normal_velocity n p2;
         q1 = resolve_pair i j ps ! i;
         q2 = resolve_pair i j ps ! j;
         dv1 = (elastic_1d (getMass p1) (getMass p2) v1n v2n - v1n) * COLLISION_DAMPING;
         dv2 = (elastic_1d (getMass p2) (getMass p1) v2n v1n - v2n) * COLLISION_DAMPING
     in (v1n \<le> v2n \<longrightarrow>
           getVx q1 = getVx p1 \<and> getVy q1 = getVy p1 \<and> getVx q2 = getVx p2 \<and> getVy q2 = getVy p2)
      \<and> (v2n \<le> v1n \<longrightarrow>
           getVx q1 = getVx p1 + dv1 * fst n \<and> getVy q1 = getVy p1 + dv1 * snd n \<and>
           getVx q2 = getVx p2 + dv2 * fst n \<and> getVy q2 = getVy p2 + dv2 * snd n))"
proof -
  define n where "n = collision_normal (ps ! i) (ps ! j)"
  define v1n where "v1n = normal_velocity n (ps ! i)"
  define v2n where "v2n = normal_velocity n (ps ! j)"
  define m1 where "m1 = getMass (ps ! i)"
  define m2 where "m2 = getMass (ps ! j)"
  obtain a1 b1 a2 b2 where r: "resolve_pair i j ps =
      exchange_velocity (fst n) (snd n) i j (ps[i := addPos a1 b1 (ps ! i), j := addPos a2 b2 (ps ! j)])"
    using resolve_pair_overlapping [OF assms(4)] unfolding n_def by blast
  let ?ps1 = "ps[i := addPos a1 b1 (ps ! i), j := addPos a2 b2 (ps ! j)]"
  have l: "i < length ?ps1" "j < length ?ps1" using assms(1,2) by simp_all
  have p1: "?ps1 ! i = addPos a1 b1 (ps ! i)" and p2: "?ps1 ! j = addPos a2 b2 (ps ! j)"
    using assms(1,2,3) by (simp_all add: nth_list_update)
  have M: "m1 + m2 \<noteq> 0" using assms(5,6) by (simp add: m1_def m2_def)
  have same: "v1n = v2n \<Longrightarrow> elastic_1d m1 m2 v1n v2n - v1n = 0 \<and> elastic_1d m2 m1 v2n v1n - v2n = 0"
  proof -
    assume e: "v1n = v2n"
    have "elastic_1d m1 m2 v2n v2n = (m1 + m2) * v2n / (m1 + m2)"
      and "elastic_1d m2 m1 v2n v2n = (m1 + m2) * v2n / (m1 + m2)"
      unfolding elastic_1d_def by (simp_all add: algebra_simps)
    then show ?thesis using M e by simp
  qed
  have q1: "resolve_pair i j ps ! i =
      (if v1n < v2n then addPos a1 b1 (ps ! i)
       else addVel ((elastic_1d m1 m2 v1n v2n - v1n) * fst n * COLLISION_DAMPING)
                   ((elastic_1d m1 m2 v1n v2n - v1n) * snd n * COLLISION_DAMPING) (addPos a1 b1 (ps ! i)))"
    unfolding r exchange_velocity_nth(1) [OF l assms(3)] p1 p2
    by (simp add: Let_def v1n_def v2n_def m1_def m2_def normal_velocity_def)
  have q2: "resolve_pair i j ps ! j =
      (if v1n < v2n then addPos a2 b2 (ps ! j)
       else addVel ((elastic_1d m2 m1 v2n v1n - v2n) * fst n * COLLISION_DAMPING)
                   ((elastic_1d m2 m1 v2n v1n - v2n) * snd n * COLLISION_DAMPING) (addPos a2 b2 (ps ! j)))"
    unfolding r exchange_velocity_nth(2) [OF l assms(3)] p1 p2
    by (simp add: Let_def v1n_def v2n_def m1_def m2_def normal_velocity_def)
  have A: "v1n \<le> v2n \<Longrightarrow>
      getVx (resolve_pair i j ps ! i) = getVx (ps ! i) \<and> getVy (resolve_pair i j ps ! i) = getVy (ps ! i) \<and>
      getVx (resolve_pair i j ps ! j) = getVx (ps ! j) \<and> getVy (resolve_pair i j ps ! j) = getVy (ps ! j)"
    using same unfolding q1 q2 by (cases "v1n < v2n") simp_all
  have B: "v2n \<le> v1n \<Longrightarrow>
      getVx (resolve_pair i j ps ! i) = getVx (ps ! i) + (elastic_1d m1 m2 v1n v2n - v1n) * COLLISION_DAMPING * fst n \<and>
      getVy (resolve_pair i j ps ! i) = getVy (ps ! i) + (elastic_1d m1 m2 v1n v2n - v1n) * COLLISION_DAMPING * snd n \<and>
      getVx (resolve_pair i j ps ! j) = getVx (ps ! j) + (elastic_1d m2 m1 v2n v1n - v2n) * COLLISION_DAMPING * fst n \<and>
      getVy (resolve_pair i j ps ! j) = getVy (ps ! j) + (elastic_1d m2 m1 v2n v1n - v2n) * COLLISION_DAMPING * snd n"
    unfolding q1 q2 by simp
  show ?thesis
    using A B unfolding Let_def n_def [symmetric] v1n_def [symmetric] v2n_def [symmetric]
      m1_def [symmetric] m2_def [symmetric]
    by (simp add: COLLISION_DAMPING_def)
qed

theorem velocity_exchange_only_when_approaching_witness:
  "0 < length colliding_pair \<and> 1 < length colliding_pair \<and> (0::nat) \<noteq> 1
   \<and> overlapping (colliding_pair ! 0) (colliding_pair ! 1)
   \<and> 0 < getMass (colliding_pair ! 0) \<and> 0 < getMass (colliding_pair ! 1)
   \<and> collision_normal (colliding_pair ! 0) (colliding_pair ! 1) = (1, 0)
   \<and> normal_velocity (1, 0) (colliding_pair ! 0) = 1
   \<and> normal_velocity (1, 0) (colliding_pair ! 1) = 0
   \<and> getVx (resolve_pair 0 1 colliding_pair ! 0) = 3 / 20
   \<and> getVx (resolve_pair 0 1 colliding_pair ! 1) = 17 / 20"
proof -
  have a: "0 < length colliding_pair" "1 < length colliding_pair" "(0::nat) \<noteq> 1"
    by (simp_all add: colliding_pair_def)
  have p: "getX (colliding_pair ! 0) = 0" "getY (colliding_pair ! 0) = 0"
    "getX (colliding_pair ! Suc 0) = 1" "getY (colliding_pair ! Suc 0) = 0"
    "getVx (colliding_pair ! 0) = 1" "getVy (colliding_pair ! 0) = 0"
    "getVx (colliding_pair ! Suc 0) = 0" "getVy (colliding_pair ! Suc 0) = 0"
    "getMass (colliding_pair ! 0) = 1" "getMass (colliding_pair ! Suc 0) = 1"
    "getRadius (colliding_pair ! 0) = 11 / 10" "getRadius (colliding_pair ! Suc 0) = 1"
    by (simp_all add: colliding_pair_def sample_particle_def sample_ambient_def getX_def getY_def
        getVx_def getVy_def getMass_def getRadius_def TEXT_RADIUS_def BG_RADIUS_def)
  have b: "overlapping (colliding_pair ! 0) (colliding_pair ! 1)"
    by (simp add: overlapping_def p Let_def)
  have c: "0 < getMass (colliding_pair ! 0)" "0 < getMass (colliding_pair ! 1)"
    by (simp_all add: p)
  have n: "collision_normal (colliding_pair ! 0) (colliding_pair ! 1) = (1, 0)"
    by (simp add: collision_normal_def p)
  have v: "normal_velocity (1, 0) (colliding_pair ! 0) = 1" "normal_velocity (1, 0) (colliding_pair ! 1) = 0"
    by (simp_all add: normal_velocity_def p)
  have "getVx (resolve_pair 0 1 colliding_pair ! 0) = 3 / 20
      \<and> getVx (resolve_pair 0 1 colliding_pair ! 1) = 17 / 20"
    using velocity_exchange_only_when_approaching [OF a b c]
    by (simp add: Let_def n [unfolded One_nat_def] v [unfolded One_nat_def] p elastic_1d_def
        COLLISION_DAMPING_def)
  then show ?thesis using a b c n v by simp
qed



text \<open>
  C9. The ambient target of a mask build is \<open>max 10 (floor ambientCount)\<close>, whatever the
  configuration, and on a canvas of positive width and height the build ends with exactly
  that many ambient particles: at least 10, also when the configured ambient count is 0.
\<close>

theorem ambient_target_at_least_ten:
  assumes "0 < width" and "0 < height"
  shows "approxAmbientTarget cfg = max 10 \<lfloor>ambientCount cfg\<rfloor>
       \<and> int (length (ambientParticles (createMask rnd width height word imgData cfg)))
           = approxAmbientTarget cfg
       \<and> 10 \<le> length (ambientParticles (createMask rnd width height word imgData cfg))"
proof -
  from ambients_createMask [OF assms, of rnd word imgData cfg]
  have "int (length (ambientParticles (createMask rnd width height word imgData cfg))) = approxAmbientTarget cfg"
    by auto
  then show ?thesis by (simp add: approxAmbientTarget_def)
qed

theorem ambient_target_at_least_ten_witness:
  "(0::nat) < 2 \<and> ambientCount defaultConfig = 0
   \<and> length (ambientParticles (createMask tenth_rnd 2 2 ''A'' blank_2x2 defaultConfig)) = 10"
proof -
  have a: "(0::nat) < 2" by simp
  have b: "ambientCount defaultConfig = 0" by (simp add: defaultConfig_def)
  show ?thesis
    using a b ambient_target_at_least_ten [OF a a, of defaultConfig tenth_rnd "''A''" blank_2x2]
    by simp
qed

text \<open>
  C10. The ambient particles the top-up loop synthesises are created at position (0, 0),
  whatever home it draws for them; and \<^verbatim>\<open>draw\<close> never reads the home of an ambient
  particle: two states that differ only in \<^verbatim>\<open>baseX\<close> and \<^verbatim>\<open>baseY\<close> of ambient particles
  are taken by a frame to two states that again differ only there, and a frame leaves
  these two fields of every ambient particle as they were.
\<close>

theorem ambient_home_never_read:
  assumes "0 < width" and "0 < height" and "erase_homes st' = erase_homes st"
  shows "(\<exists>ks. ambientParticles (createMask rnd width height word imgData cfg0) =
            fst (snd (spawn_cells rnd width height word imgData cfg0))
              @ map (synthesized_ambient rnd (real width) (real height)) ks)
       \<and> x (synthesized_ambient rnd (real width) (real height) k) = 0
       \<and> y (synthesized_ambient rnd (real width) (real height) k) = 0
       \<and> erase_homes (draw rnd (real width) (real height) cfg m rafTime st')
           = erase_homes (draw rnd (real width) (real height) cfg m rafTime st)
       \<and> map baseX (ambientParticles (draw rnd (real width) (real height) cfg m rafTime st))
           = map baseX (ambientParticles st)
       \<and> map baseY (ambientParticles (draw rnd (real width) (real height) cfg m rafTime st))
           = map baseY (ambientParticles st)"
proof -
  have 1: "\<exists>ks. ambientParticles (createMask rnd width height word imgData cfg0) =
            fst (snd (spawn_cells rnd width height word imgData cfg0))
              @ map (synthesized_ambient rnd (real width) (real height)) ks"
    using ambients_createMask [OF assms(1,2), of rnd word imgData cfg0] by blast
  have 2: "erase_homes (draw rnd (real width) (real height) cfg m rafTime st')
           = erase_homes (draw rnd (real width) (real height) cfg m rafTime st)"
    by (simp only: draw_erase [symmetric] assms(3))
  show ?thesis
    using 1 2 by (simp add: ambients_draw_home)
qed

theorem ambient_home_never_read_witness:
  "(0::nat) < 800 \<and> (0::nat) < 600 \<and> erase_homes sample_state_rehomed = erase_homes sample_state
   \<and> map baseX (ambientParticles sample_state_rehomed) = [- 250]
   \<and> map baseX (ambientParticles sample_state) = [7]
   \<and> x (synthesized_ambient half_rnd (real (800::nat)) (real (600::nat)) 0) = 0
   \<and> y (synthesized_ambient half_rnd (real (800::nat)) (real (600::nat)) 0) = 0
   \<and> erase_homes (draw half_rnd (real (800::nat)) (real (600::nat)) defaultConfig pointer_at_origin 1032 sample_state_rehomed)
       = erase_homes (draw half_rnd (real (800::nat)) (real (600::nat)) defaultConfig pointer_at_origin 1032 sample_state)"
proof -
  have a: "(0::nat) < 800" "(0::nat) < 600" by simp_all
  have b: "erase_homes sample_state_rehomed = erase_homes sample_state"
    by (simp add: erase_homes_def sample_state_rehomed_def sample_state_def forget_home_def)
  have c: "map baseX (ambientParticles sample_state_rehomed) = [- 250]"
    "map baseX (ambientParticles sample_state) = [7]"
    by (simp_all add: sample_state_rehomed_def sample_state_def sample_ambient_def)
  show ?thesis
    using a b c ambient_home_never_read [OF a b, of half_rnd "''A''" blank_2x2 defaultConfig 0
        defaultConfig pointer_at_origin 1032]
    by blast
qed

end
